theory Spec2Isabelle
  imports Complex_Main "HOL-Library.Sublist" "HOL-Library.Multiset"
begin

section \<open>Strings as the helpers of \<^verbatim>\<open>src/web/app.js\<close> use them\<close>

text \<open>
  A JavaScript string is modelled as a \<^typ>\<open>string\<close> of ASCII characters. Characters
  outside ASCII are carried through unchanged: they are neither white space nor letters
  with a case in this model.
\<close>

text \<open>The character class \<^verbatim>\<open>[,;/|]\<close> of the regular expression in \<^verbatim>\<open>split(/[,;/|]+/)\<close>.\<close>

definition is_delim :: "char \<Rightarrow> bool" where
  "is_delim c = (c = CHR '','' \<or> c = CHR '';'' \<or> c = CHR ''/'' \<or> c = CHR ''|'')"

text \<open>
  \<^verbatim>\<open>s.split(/[,;/|]+/)\<close>: the pieces of \<open>s\<close> between maximal runs of delimiters (the
  \<^verbatim>\<open>+\<close> is greedy). A run at the start or at the end leaves an empty piece there, and
  the empty string splits into one empty piece.
\<close>

function split_delims :: "string \<Rightarrow> string list" where
  "split_delims s =
     (let piece = takeWhile (\<lambda>c. \<not> is_delim c) s;
          rest = dropWhile (\<lambda>c. \<not> is_delim c) s
      in if rest = [] then [piece]
         else piece # split_delims (dropWhile is_delim rest))"
  by pat_completeness auto
termination
proof (relation "measure length", goal_cases)
  case 1
  show ?case by simp
next
  case (2 s piece rest)
  then have ne: "rest \<noteq> []" and req: "rest = dropWhile (\<lambda>c. \<not> is_delim c) s"
    by simp_all
  obtain c cs where r: "rest = c # cs"
    using ne by (cases rest) simp_all
  have "is_delim c"
    using req r dropWhile_eq_Cons_conv [of "\<lambda>c. \<not> is_delim c" s c cs] by simp
  then have "length (dropWhile is_delim rest) \<le> length cs"
    using r by (simp add: length_dropWhile_le)
  moreover have "length rest \<le> length s"
    using req by (simp add: length_dropWhile_le)
  ultimately show ?case
    using r by simp
qed

declare split_delims.simps [simp del]

text \<open>White space and line terminators that \<^verbatim>\<open>String.prototype.trim\<close> removes (ASCII).\<close>

definition is_space :: "char \<Rightarrow> bool" where
  "is_space c = (c = CHR '' '' \<or> c = CHR 0x09 \<or> c = CHR 0x0A \<or> c = CHR 0x0B
                 \<or> c = CHR 0x0C \<or> c = CHR 0x0D)"

definition trim :: "string \<Rightarrow> string" where
  "trim s = rev (dropWhile is_space (rev (dropWhile is_space s)))"

text \<open>\<^verbatim>\<open>String.prototype.toLowerCase\<close> on ASCII: \<open>A\<close>..\<open>Z\<close> move to \<open>a\<close>..\<open>z\<close>.\<close>

definition lower_char :: "char \<Rightarrow> char" where
  "lower_char c =
     (case map_of (zip ''ABCDEFGHIJKLMNOPQRSTUVWXYZ'' ''abcdefghijklmnopqrstuvwxyz'') c of
        None \<Rightarrow> c
      | Some l \<Rightarrow> l)"

definition toLowerCase :: "string \<Rightarrow> string" where
  "toLowerCase s = map lower_char s"

text \<open>
  \<^verbatim>\<open>s.split(/[,;/|]+/).map(s=>s.trim()).filter(Boolean)\<close>, the expression shared by
  \<^verbatim>\<open>fileHasGenre\<close> and \<^verbatim>\<open>getFilteredFiles\<close>: \<^verbatim>\<open>filter(Boolean)\<close> keeps the non-empty
  strings.
\<close>

definition genre_parts :: "string \<Rightarrow> string list" where
  "genre_parts s = filter (\<lambda>p. p \<noteq> []) (map trim (split_delims s))"

section \<open>File records\<close>

text \<open>
  One entry of \<^verbatim>\<open>files.json\<close>. Every field may be missing (\<open>None\<close> stands for
  \<^verbatim>\<open>undefined\<close> and \<^verbatim>\<open>null\<close>). Text fields are strings, \<^verbatim>\<open>duration\<close> is a number of
  seconds that may have a fraction, \<^verbatim>\<open>mtime_epoch\<close> is a whole number of seconds
  since the epoch.
\<close>

record file_rec =
  genre :: "string option"
  artist :: "string option"
  duration :: "rat option"
  date :: "string option"
  mtime_epoch :: "int option"

text \<open>JavaScript truthiness of an optional string: present and not empty.\<close>

definition truthy_str :: "string option \<Rightarrow> bool" where
  "truthy_str v = (case v of None \<Rightarrow> False | Some s \<Rightarrow> s \<noteq> [])"

section \<open>Genre Matcher and Filter Engine\<close>

text \<open>
  \<^verbatim>\<open>fileHasGenre(file, genre)\<close>, lines 9-13. The first argument is \<open>None\<close> for a
  \<^verbatim>\<open>null\<close> file.
\<close>

definition fileHasGenre :: "file_rec option \<Rightarrow> string \<Rightarrow> bool" where
  "fileHasGenre fl g =
     (case fl of
        None \<Rightarrow> False
      | Some f \<Rightarrow>
          (case genre f of
             None \<Rightarrow> False
           | Some s \<Rightarrow>
               if s = [] then False
               else list_ex (\<lambda>p. toLowerCase p = toLowerCase g) (genre_parts s)))"

text \<open>The callback of the default view, lines 29-33.\<close>

definition default_keep :: "file_rec \<Rightarrow> bool" where
  "default_keep f =
     (case genre f of
        None \<Rightarrow> False
      | Some s \<Rightarrow>
          if s = [] then False
          else \<not> list_ex (\<lambda>p. toLowerCase p = ''unknown'') (genre_parts s))"

text \<open>
  \<^verbatim>\<open>getFilteredFiles(files, genre)\<close>, lines 25-36. \<open>files\<close> is \<open>None\<close> when the
  argument is \<^verbatim>\<open>null\<close> or \<^verbatim>\<open>undefined\<close>; the selection is \<open>None\<close> for \<^verbatim>\<open>null\<close> and
  \<^verbatim>\<open>undefined\<close>, and a string otherwise (\<^verbatim>\<open>!genre\<close> holds for \<open>None\<close> and for the
  empty string). The elements of the list are file records.
\<close>

definition getFilteredFiles :: "file_rec list option \<Rightarrow> string option \<Rightarrow> file_rec list" where
  "getFilteredFiles files sel =
     (case files of
        None \<Rightarrow> []
      | Some fs \<Rightarrow>
          (case sel of
             None \<Rightarrow> filter default_keep fs
           | Some g \<Rightarrow>
               if g = [] \<or> g = ''__all__'' then filter default_keep fs
               else filter (\<lambda>f. fileHasGenre (Some f) g) fs))"

section \<open>Year Extractor\<close>

definition is_digit :: "char \<Rightarrow> bool" where
  "is_digit c = (c \<in> set ''0123456789'')"

text \<open>
  \<^verbatim>\<open>s.match(/(19|20)\d{2}/)\<close>: the leftmost place where \<open>19\<close> or \<open>20\<close> is followed by two
  digits; the result is the matched text \<^verbatim>\<open>m[0]\<close>, or \<open>None\<close> for \<^verbatim>\<open>null\<close>.
\<close>

fun year_match :: "string \<Rightarrow> string option" where
  "year_match (a # b # c # d # rest) =
     (if ((a = CHR ''1'' \<and> b = CHR ''9'') \<or> (a = CHR ''2'' \<and> b = CHR ''0''))
         \<and> is_digit c \<and> is_digit d
      then Some [a, b, c, d]
      else year_match (b # c # d # rest))"
| "year_match _ = None"

text \<open>Unary plus on a string of decimal digits (\<^verbatim>\<open>+m[0]\<close>).\<close>

definition digit_val :: "char \<Rightarrow> int" where
  "digit_val c =
     (case map_of (zip ''0123456789'' [0, 1, 2, 3, 4, 5, 6, 7, 8, 9]) c of
        None \<Rightarrow> 0
      | Some v \<Rightarrow> v)"

definition to_number :: "string \<Rightarrow> int" where
  "to_number s = foldl (\<lambda>n c. 10 * n + digit_val c) 0 s"

text \<open>
  The \<^verbatim>\<open>Date\<close> object, as ECMAScript defines it. A time value is a whole number of
  milliseconds since the epoch, or \<^verbatim>\<open>NaN\<close> (here \<open>None\<close>) when the argument of
  \<^verbatim>\<open>new Date(v)\<close> is more than 8.64e15 away from zero. \<^verbatim>\<open>getFullYear\<close> reads the year
  of the local time, so it depends on the offset of the local time zone, \<open>tz t\<close>
  milliseconds at the instant \<open>t\<close>; \<open>tz = (\<lambda>t. 0)\<close> is UTC.
\<close>

datatype jsnum = NaN | Num int

definition msPerDay :: int where
  "msPerDay = 86400000"

definition Day :: "int \<Rightarrow> int" where
  "Day t = t div msPerDay"

definition DayFromYear :: "int \<Rightarrow> int" where
  "DayFromYear y =
     365 * (y - 1970) + (y - 1969) div 4 - (y - 1901) div 100 + (y - 1601) div 400"

text \<open>
  \<open>YearFromTime t\<close> is the year \<open>y\<close> with \<open>DayFromYear y \<le> Day t < DayFromYear (y + 1)\<close>:
  an estimate from the mean length of a year, moved by one where it is off.
\<close>

definition YearFromTime :: "int \<Rightarrow> int" where
  "YearFromTime t =
     (let d = Day t; y = 1970 + (400 * d) div 146097
      in if d < DayFromYear y then y - 1
         else if DayFromYear (y + 1) \<le> d then y + 1
         else y)"

definition new_Date :: "int \<Rightarrow> int option" where
  "new_Date v = (if \<bar>v\<bar> \<le> 8640000000000000 then Some v else None)"

definition getFullYear :: "(int \<Rightarrow> int) \<Rightarrow> int option \<Rightarrow> jsnum" where
  "getFullYear tz tv = (case tv of None \<Rightarrow> NaN | Some t \<Rightarrow> Num (YearFromTime (t + tz t)))"

text \<open>UTC as the local time zone.\<close>

definition utc :: "int \<Rightarrow> int" where
  "utc t = 0"

text \<open>
  \<^verbatim>\<open>getYearFromFile(file)\<close>, lines 15-23. The result is \<open>None\<close> for \<^verbatim>\<open>null\<close>.
  \<^verbatim>\<open>if (file.date)\<close> and \<^verbatim>\<open>if (file.mtime_epoch)\<close> test truthiness: an empty date and
  an \<^verbatim>\<open>mtime_epoch\<close> of \<open>0\<close> are passed over like missing ones.
\<close>

definition date_year :: "file_rec \<Rightarrow> int option" where
  "date_year f =
     (case date f of
        None \<Rightarrow> None
      | Some s \<Rightarrow> if s = [] then None else map_option to_number (year_match s))"

definition getYearFromFile :: "(int \<Rightarrow> int) \<Rightarrow> file_rec option \<Rightarrow> jsnum option" where
  "getYearFromFile tz fl =
     (case fl of
        None \<Rightarrow> None
      | Some f \<Rightarrow>
          (case date_year f of
             Some y \<Rightarrow> Some (Num y)
           | None \<Rightarrow>
               (case mtime_epoch f of
                  None \<Rightarrow> None
                | Some t \<Rightarrow>
                    if t = 0 then None
                    else Some (getFullYear tz (new_Date (t * 1000))))))"

section \<open>Derived Aggregator\<close>

text \<open>
  A counting object \<^verbatim>\<open>counts = {}\<close> is a list of keys with their counts, in the order
  in which the keys were first written. The keys of the duration and year objects are
  the five labels and numerals of years: none of them is the name of a member of
  \<^verbatim>\<open>Object.prototype\<close>, so for them \<^verbatim>\<open>counts[k]\<close> is \<^verbatim>\<open>undefined\<close> until the key is written,
  and the object is a plain map. (Artist names are arbitrary text; their object is
  modelled with the inherited members further down.)
  \<^verbatim>\<open>counts[k] = (counts[k] || 0) + 1\<close>:
\<close>

fun bump :: "'k \<Rightarrow> ('k \<times> nat) list \<Rightarrow> ('k \<times> nat) list" where
  "bump k [] = [(k, 1)]"
| "bump k ((k', n) # rest) =
     (if k' = k then (k', n + 1) # rest else (k', n) # bump k rest)"

text \<open>
  The \<^verbatim>\<open>forEach\<close> loops of the aggregations: each element adds one to the count of its
  key, or is passed over when the guard of the loop body fails (\<open>key x = None\<close>).
\<close>

definition count_step :: "('a \<Rightarrow> 'k option) \<Rightarrow> ('k \<times> nat) list \<Rightarrow> 'a \<Rightarrow> ('k \<times> nat) list" where
  "count_step key counts x = (case key x of None \<Rightarrow> counts | Some k \<Rightarrow> bump k counts)"

definition tally :: "('a \<Rightarrow> 'k option) \<Rightarrow> 'a list \<Rightarrow> ('k \<times> nat) list" where
  "tally key xs = foldl (count_step key) [] xs"

text \<open>
  \<^verbatim>\<open>Object.entries(o)\<close> lists the keys that are array indices first, in ascending
  numeric order, and then the other keys in the order of their creation. \<open>idx k\<close> is the
  array index that the key \<open>k\<close> denotes, if any.
\<close>

definition object_entries :: "('k \<Rightarrow> nat option) \<Rightarrow> ('k \<times> 'v) list \<Rightarrow> ('k \<times> 'v) list" where
  "object_entries idx kvs =
     sort_key (\<lambda>(k, v). case idx k of None \<Rightarrow> 0 | Some i \<Rightarrow> i)
              (filter (\<lambda>(k, v). idx k \<noteq> None) kvs)
     @ filter (\<lambda>(k, v). idx k = None) kvs"

text \<open>A string key is an array index when it is the canonical numeral of \<open>0 .. 2^32 - 2\<close>.\<close>

definition array_index :: "string \<Rightarrow> nat option" where
  "array_index s =
     (if s \<noteq> [] \<and> list_all is_digit s \<and> (s = ''0'' \<or> hd s \<noteq> CHR ''0'')
         \<and> to_number s < 2 ^ 32 - 1
      then Some (nat (to_number s)) else None)"

text \<open>A number used as a key is written as its decimal numeral.\<close>

definition year_index :: "int \<Rightarrow> nat option" where
  "year_index y = (if 0 \<le> y \<and> y < 2 ^ 32 - 1 then Some (nat y) else None)"

text \<open>\<^verbatim>\<open>Math.round\<close>: the nearest integer, a half rounding up.\<close>

definition Math_round :: "rat \<Rightarrow> int" where
  "Math_round x = \<lfloor>x + 1 / 2\<rfloor>"

text \<open>The label of a rounded duration, line 103.\<close>

definition duration_label :: "int \<Rightarrow> string" where
  "duration_label d =
     (if d < 120 then ''<2m''
      else if d < 240 then ''2-4m''
      else if d < 360 then ''4-6m''
      else if d < 720 then ''6-12m''
      else ''12m+'')"

text \<open>\<^verbatim>\<open>Math.round((f.duration || 0))\<close>, line 102.\<close>

definition rounded_duration :: "file_rec \<Rightarrow> int" where
  "rounded_duration f = Math_round (case duration f of None \<Rightarrow> 0 | Some d \<Rightarrow> d)"

text \<open>The fallback of \<^verbatim>\<open>renderDurationDistribution\<close>, lines 100-106: the object \<^verbatim>\<open>counts\<close>.\<close>

definition duration_fallback :: "file_rec list option \<Rightarrow> string option \<Rightarrow> (string \<times> nat) list" where
  "duration_fallback files sel =
     tally (\<lambda>f. Some (duration_label (rounded_duration f))) (getFilteredFiles files sel)"

text \<open>
  The members that every object inherits from \<^verbatim>\<open>Object.prototype\<close>: eleven functions,
  listed with their \<^verbatim>\<open>length\<close> (the number of their parameters), and the accessor
  \<^verbatim>\<open>__proto__\<close>, whose getter gives \<^verbatim>\<open>Object.prototype\<close> itself and whose setter leaves
  the object as it is when the value is not an object.
\<close>

definition proto_functions :: "(string \<times> nat) list" where
  "proto_functions =
     [(''constructor'', 1), (''__defineGetter__'', 2), (''__defineSetter__'', 2),
      (''hasOwnProperty'', 1), (''__lookupGetter__'', 1), (''__lookupSetter__'', 1),
      (''isPrototypeOf'', 1), (''propertyIsEnumerable'', 1), (''toString'', 0),
      (''valueOf'', 0), (''toLocaleString'', 0)]"

definition is_proto_member :: "string \<Rightarrow> bool" where
  "is_proto_member k = (k = ''__proto__'' \<or> map_of proto_functions k \<noteq> None)"

text \<open>
  The value of a key of the artist object: a number, or, for a key that names an
  inherited function, a string. \<open>Text n\<close> is the source text of that function followed
  by \<open>n\<close> digits \<open>1\<close>: the function is truthy, and \<^verbatim>\<open>+ 1\<close> on a function or a string
  appends \<open>1\<close> to its text.
\<close>

datatype count_val = Count nat | Text nat

text \<open>
  \<^verbatim>\<open>counts[k] = (counts[k] || 0) + 1\<close> for \<open>k\<close> other than \<^verbatim>\<open>__proto__\<close>: an own value
  grows by one; a key that is not yet there starts from the inherited function, if
  \<open>k\<close> names one, and from \<open>0\<close> otherwise.
\<close>

fun obj_bump :: "string \<Rightarrow> (string \<times> count_val) list \<Rightarrow> (string \<times> count_val) list" where
  "obj_bump k [] =
     (if map_of proto_functions k \<noteq> None then [(k, Text 1)] else [(k, Count 1)])"
| "obj_bump k ((k', v) # rest) =
     (if k' = k
      then (k', (case v of Count n \<Rightarrow> Count (n + 1) | Text n \<Rightarrow> Text (n + 1))) # rest
      else (k', v) # obj_bump k rest)"

definition artist_key :: "file_rec \<Rightarrow> string option" where
  "artist_key f = (if truthy_str (artist f) then artist f else None)"

text \<open>
  The loop body \<^verbatim>\<open>if (f.artist) counts[f.artist] = (counts[f.artist]||0)+1\<close>, line 189.
  For the artist \<^verbatim>\<open>__proto__\<close> the assignment goes to the inherited setter with a string
  and changes nothing.
\<close>

definition artist_step :: "(string \<times> count_val) list \<Rightarrow> file_rec \<Rightarrow> (string \<times> count_val) list" where
  "artist_step counts f =
     (case artist_key f of
        None \<Rightarrow> counts
      | Some a \<Rightarrow> if a = ''__proto__'' then counts else obj_bump a counts)"

definition tally_artists :: "file_rec list \<Rightarrow> (string \<times> count_val) list" where
  "tally_artists fs = foldl artist_step [] fs"

text \<open>
  \<^verbatim>\<open>.sort((a,b)=>b[1]-a[1])\<close> on entries of the artist object. The difference is
  \<^verbatim>\<open>NaN\<close> when one of the values is a string, and the sort takes \<^verbatim>\<open>NaN\<close> as "equal".
  \<^verbatim>\<open>Array.prototype.sort\<close> is stable, so with numbers only the entries come in falling
  order of the counts, ties in their former order; with a string among the values the
  comparison is consistent only when all the numbers are equal, and then every pair
  compares equal and the order stays. Otherwise ECMAScript leaves the order to the
  engine: \<open>Engine_order es\<close> stands for some arrangement of \<open>es\<close>.
\<close>

datatype 'a js_sorted = Sorted "'a list" | Engine_order "'a list"

definition is_count :: "count_val \<Rightarrow> bool" where
  "is_count v = (case v of Count n \<Rightarrow> True | Text n \<Rightarrow> False)"

definition count_of :: "count_val \<Rightarrow> nat" where
  "count_of v = (case v of Count n \<Rightarrow> n | Text n \<Rightarrow> 0)"

definition sort_tallies :: "(string \<times> count_val) list \<Rightarrow> (string \<times> count_val) js_sorted" where
  "sort_tallies es =
     (if list_all (\<lambda>e. is_count (snd e)) es
      then Sorted (sort_key (\<lambda>e. - int (count_of (snd e))) es)
      else (case filter is_count (map snd es) of
              [] \<Rightarrow> Sorted es
            | c # cs \<Rightarrow> if list_all (\<lambda>d. d = c) cs then Sorted es else Engine_order es))"

text \<open>
  The fallback of \<^verbatim>\<open>renderArtistBar\<close>, lines 188-190: count the truthy artist fields,
  sort the entries by falling count and keep the first 20 (of an \<open>Engine_order\<close>, the
  first 20 of the arrangement that the engine chooses).
\<close>

definition artist_fallback ::
  "file_rec list option \<Rightarrow> string option \<Rightarrow> (string \<times> count_val) js_sorted" where
  "artist_fallback files sel =
     (case sort_tallies (object_entries array_index
                          (tally_artists (getFilteredFiles files sel))) of
        Sorted es \<Rightarrow> Sorted (take 20 es)
      | Engine_order es \<Rightarrow> Engine_order es)"

definition sorted_items :: "'a js_sorted \<Rightarrow> 'a list" where
  "sorted_items r = (case r of Sorted es \<Rightarrow> es | Engine_order es \<Rightarrow> es)"

text \<open>
  The same on a plain map, with numbers only. \<open>artist_fallback\<close> is this list whenever
  no artist of the filtered files is named like a member of \<^verbatim>\<open>Object.prototype\<close>.
\<close>

definition artist_ranking_plain :: "file_rec list option \<Rightarrow> string option \<Rightarrow> (string \<times> nat) list" where
  "artist_ranking_plain files sel =
     take 20 (sort_key (\<lambda>(a, c). - int c)
               (object_entries array_index (tally artist_key (getFilteredFiles files sel))))"

text \<open>
  \<^verbatim>\<open>renderYearHistogramFromFiles\<close>, lines 218-220: the list \<^verbatim>\<open>entries\<close>. A year is
  counted when \<^verbatim>\<open>if (y)\<close> holds: \<^verbatim>\<open>null\<close>, \<^verbatim>\<open>NaN\<close> and \<open>0\<close> are falsy.
\<close>

definition hist_key :: "(int \<Rightarrow> int) \<Rightarrow> file_rec \<Rightarrow> int option" where
  "hist_key tz f =
     (case getYearFromFile tz (Some f) of
        Some (Num y) \<Rightarrow> if y \<noteq> 0 then Some y else None
      | _ \<Rightarrow> None)"

definition year_histogram ::
  "(int \<Rightarrow> int) \<Rightarrow> file_rec list option \<Rightarrow> string option \<Rightarrow> (int \<times> nat) list" where
  "year_histogram tz files sel =
     sort_key fst (object_entries year_index (tally (hist_key tz) (getFilteredFiles files sel)))"

text \<open>
  \<^verbatim>\<open>renderAddedTimelineFromFiles\<close>, lines 235-237: the list \<^verbatim>\<open>entries\<close>, with
  \<^verbatim>\<open>y = new Date((f.mtime_epoch||0)*1000).getFullYear()\<close>.
\<close>

definition added_year :: "(int \<Rightarrow> int) \<Rightarrow> file_rec \<Rightarrow> jsnum" where
  "added_year tz f =
     getFullYear tz (new_Date ((case mtime_epoch f of None \<Rightarrow> 0 | Some t \<Rightarrow> t) * 1000))"

definition timeline_key :: "(int \<Rightarrow> int) \<Rightarrow> file_rec \<Rightarrow> int option" where
  "timeline_key tz f =
     (case added_year tz f of NaN \<Rightarrow> None | Num y \<Rightarrow> if y \<noteq> 0 then Some y else None)"

definition added_timeline ::
  "(int \<Rightarrow> int) \<Rightarrow> file_rec list option \<Rightarrow> string option \<Rightarrow> (int \<times> nat) list" where
  "added_timeline tz files sel =
     sort_key fst (object_entries year_index (tally (timeline_key tz) (getFilteredFiles files sel)))"

section \<open>Aggregate statistics and the charts\<close>

text \<open>
  A JSON object is the list of its keys, which are distinct, with their values. Reading
  a property \<^verbatim>\<open>o[k]\<close> gives the own value of the key, or the member that the object
  inherits from \<^verbatim>\<open>Object.prototype\<close> when \<open>k\<close> names one (a function, or the prototype
  itself for \<^verbatim>\<open>__proto__\<close>: both truthy, both without own enumerable keys), or
  \<^verbatim>\<open>undefined\<close>.
\<close>

type_synonym 'v jsobject = "(string \<times> 'v) list"

datatype 'v jsprop = Undefined | Own 'v | Inherited string

definition get_prop :: "'v jsobject \<Rightarrow> string \<Rightarrow> 'v jsprop" where
  "get_prop obj k =
     (case map_of obj k of
        Some v \<Rightarrow> Own v
      | None \<Rightarrow> if is_proto_member k then Inherited k else Undefined)"

text \<open>
  \<^verbatim>\<open>.length\<close> of an inherited member: the number of parameters of a function,
  \<^verbatim>\<open>undefined\<close> for the prototype object.
\<close>

definition inherited_length :: "string \<Rightarrow> nat option" where
  "inherited_length k = (if k = ''__proto__'' then None else map_of proto_functions k)"

text \<open>
  The document \<^verbatim>\<open>stats.json\<close>. Every key may be missing. \<^verbatim>\<open>top_genres\<close> and the values
  of \<^verbatim>\<open>top_artists_per_genre\<close> are arrays of pairs; \<^verbatim>\<open>per_genre_duration_stats\<close> holds
  for each genre the \<^verbatim>\<open>percentiles\<close> member of its entry.
\<close>

record stats =
  summary :: "nat jsobject option"
  durations :: "rat jsobject option"
  genre_counts :: "nat jsobject option"
  genre_percentages :: "rat jsobject option"
  top_genres :: "(string \<times> nat) list option"
  artist_counts :: "nat jsobject option"
  top_artists_per_genre :: "(string \<times> nat) list jsobject option"
  duration_bins :: "nat jsobject option"
  duration_percentiles :: "rat jsobject option"
  per_genre_duration_bins :: "nat jsobject jsobject option"
  per_genre_duration_stats :: "rat jsobject option jsobject option"

text \<open>
  What an element of the page shows. The drawing itself (scales, axes, colours) is
  left out: a chart is the data it is drawn from.
\<close>

datatype view =
    Blank
  | Message string
  | Summary "nat jsobject" "int option option" nat "(string \<times> nat) option"
  | Counts "(string \<times> nat) list"
  | Tallied "(string \<times> count_val) js_sorted"
  | Histogram "(string \<times> nat) list" "rat jsobject option"
  | Percentiles "rat jsobject"
  | Slices "(string \<times> nat \<times> rat jsprop) list"
  | Years "(int \<times> nat) list"
  | Radar "(string \<times> rat jsprop) list"

text \<open>
  The page: the elements that \<^verbatim>\<open>app.js\<close> writes to, and \<^verbatim>\<open>window.__MLV.selectedGenre\<close>.
\<close>

record page =
  selectedGenre :: "string option"
  genre_select_value :: string
  genre_options :: "(string \<times> nat) list"
  summarytext :: view
  duration_bins_box :: view
  barchart :: view
  genrepie :: view
  artistchart :: view
  durhist :: view
  yearhist :: view
  timeline :: view
  genreradar :: view

text \<open>
  A render function returns the page it has written, or throws with the page as it was
  at that moment. Reading a property of \<^verbatim>\<open>undefined\<close> and \<^verbatim>\<open>Object.entries(undefined)\<close>
  throw a \<^verbatim>\<open>TypeError\<close>; no function of \<^verbatim>\<open>app.js\<close> catches it.
\<close>

datatype js_error = TypeError

datatype outcome = Returned page | Thrown js_error page

definition and_then :: "outcome \<Rightarrow> (page \<Rightarrow> outcome) \<Rightarrow> outcome" where
  "and_then r k = (case r of Returned p \<Rightarrow> k p | Thrown e p \<Rightarrow> Thrown e p)"

definition by_count_desc :: "('a \<times> nat) list \<Rightarrow> ('a \<times> nat) list" where
  "by_count_desc xs = sort_key (\<lambda>(k, c). - int c) xs"

definition not_unknown :: "string \<times> nat \<Rightarrow> bool" where
  "not_unknown e = (toLowerCase (fst e) \<noteq> ''unknown'')"

text \<open>\<^verbatim>\<open>renderSummary(stats, files, selectedGenre)\<close>, lines 38-56.\<close>

definition renderSummary :: "stats \<Rightarrow> file_rec list option \<Rightarrow> string option \<Rightarrow> page \<Rightarrow> outcome" where
  "renderSummary st files sel p =
     (case summary st of
        None \<Rightarrow> Thrown TypeError p
      | Some s \<Rightarrow>
          Returned (p\<lparr>summarytext :=
            Summary s
              (map_option (\<lambda>d. map_option Math_round (map_of d ''mean'')) (durations st))
              (case genre_counts st of
                 None \<Rightarrow> 0
               | Some gc \<Rightarrow> (case map_of gc ''Unknown'' of None \<Rightarrow> 0 | Some n \<Rightarrow> n))
              (if truthy_str sel \<and> sel \<noteq> Some ''__all__''
               then Some (the sel, length (getFilteredFiles files sel)) else None)\<rparr>))"

text \<open>\<^verbatim>\<open>populateGenreSelect(stats)\<close>, lines 58-71: the options added to the select.\<close>

definition populateGenreSelect :: "stats \<Rightarrow> page \<Rightarrow> outcome" where
  "populateGenreSelect st p =
     (case genre_counts st of
        None \<Rightarrow> Thrown TypeError p
      | Some gc \<Rightarrow>
          Returned (p\<lparr>genre_options := genre_options p
            @ by_count_desc (filter not_unknown (object_entries array_index gc))\<rparr>))"

text \<open>\<^verbatim>\<open>renderDurationBins(stats)\<close>, lines 73-83.\<close>

definition renderDurationBins :: "stats \<Rightarrow> page \<Rightarrow> outcome" where
  "renderDurationBins st p =
     (case duration_bins st of
        None \<Rightarrow> Returned (p\<lparr>duration_bins_box := Blank\<rparr>)
      | Some b \<Rightarrow> Returned (p\<lparr>duration_bins_box := Counts (object_entries array_index b)\<rparr>))"

text \<open>
  The variable \<^verbatim>\<open>bins\<close> of \<^verbatim>\<open>renderDurationDistribution(stats, genre, files)\<close> after
  line 107: the global bins, replaced by the bins of the genre when there are any, and
  computed from the files only when a genre is given and the bins so far are empty.
  \<open>per_genre_bins\<close> is \<^verbatim>\<open>stats.per_genre_duration_bins[genre]\<close> when that is truthy: an
  inherited member counts as an object without keys (\<^verbatim>\<open>Object.keys\<close> and
  \<^verbatim>\<open>Object.entries\<close> of it are empty).
\<close>

definition per_genre_bins :: "stats \<Rightarrow> string \<Rightarrow> nat jsobject option" where
  "per_genre_bins st g =
     (case per_genre_duration_bins st of
        None \<Rightarrow> None
      | Some m \<Rightarrow>
          (case get_prop m g of
             Undefined \<Rightarrow> None
           | Own b \<Rightarrow> Some b
           | Inherited k \<Rightarrow> Some []))"

definition duration_bins_shown ::
  "stats \<Rightarrow> string option \<Rightarrow> file_rec list option \<Rightarrow> (string \<times> nat) list" where
  "duration_bins_shown st g files =
     (let bins0 = (case duration_bins st of None \<Rightarrow> [] | Some b \<Rightarrow> b);
          bins1 = (if truthy_str g
                   then (case per_genre_bins st (the g) of None \<Rightarrow> bins0 | Some b \<Rightarrow> b)
                   else bins0)
      in if truthy_str g \<and> bins1 = [] \<and> files \<noteq> None
         then duration_fallback files g
         else bins1)"

definition percentiles_shown :: "stats \<Rightarrow> string option \<Rightarrow> rat jsobject option" where
  "percentiles_shown st g =
     (if truthy_str g
      then (case per_genre_duration_stats st of
              None \<Rightarrow> duration_percentiles st
            | Some m \<Rightarrow>
                (case get_prop m (the g) of
                   Undefined \<Rightarrow> duration_percentiles st
                 | Own pc \<Rightarrow> pc
                 | Inherited k \<Rightarrow> None))
      else duration_percentiles st)"

text \<open>\<^verbatim>\<open>renderDurationDistribution(stats, genre, files)\<close>, lines 85-145.\<close>

definition renderDurationDistribution ::
  "stats \<Rightarrow> string option \<Rightarrow> file_rec list option \<Rightarrow> page \<Rightarrow> outcome" where
  "renderDurationDistribution st g files p =
     (let data = by_count_desc (object_entries array_index (duration_bins_shown st g files))
      in case percentiles_shown st g of
           Some pc \<Rightarrow>
             if data = [] then Returned (p\<lparr>durhist := Percentiles pc\<rparr>)
             else Returned (p\<lparr>durhist := Histogram data (Some pc)\<rparr>)
         | None \<Rightarrow> Returned (p\<lparr>durhist := Histogram data None\<rparr>))"

text \<open>\<^verbatim>\<open>renderGenreBar(stats, selectedGenre)\<close>, lines 147-175.\<close>

definition renderGenreBar :: "stats \<Rightarrow> string option \<Rightarrow> page \<Rightarrow> outcome" where
  "renderGenreBar st sel p =
     (case genre_counts st of
        None \<Rightarrow> Thrown TypeError (p\<lparr>barchart := Blank\<rparr>)
      | Some gc \<Rightarrow>
          Returned (p\<lparr>barchart :=
            Counts (take 20 (by_count_desc (filter not_unknown (object_entries array_index gc))))\<rparr>))"

text \<open>
  \<^verbatim>\<open>renderArtistBar(genre, stats, files)\<close>, lines 177-214. When the genre names an
  inherited member and \<^verbatim>\<open>top_artists_per_genre\<close> has no such key of its own, \<^verbatim>\<open>list\<close> is
  that member: with a \<^verbatim>\<open>length\<close> other than \<open>0\<close> the call \<^verbatim>\<open>list.map\<close> throws, since a
  function has no \<^verbatim>\<open>map\<close>.
\<close>

definition renderArtistBar ::
  "string option \<Rightarrow> stats \<Rightarrow> file_rec list option \<Rightarrow> page \<Rightarrow> outcome" where
  "renderArtistBar g st files p =
     (let shown = (\<lambda>data. if data = [] then Message ''No data for selected genre''
                           else Counts data);
          fallback =
            (if files \<noteq> None
             then (if sorted_items (artist_fallback files g) = []
                   then Returned (p\<lparr>artistchart := shown []\<rparr>)
                   else Returned (p\<lparr>artistchart := Tallied (artist_fallback files g)\<rparr>))
             else Returned (p\<lparr>artistchart := shown []\<rparr>))
      in if \<not> truthy_str g
         then (case artist_counts st of
                 None \<Rightarrow> Thrown TypeError (p\<lparr>artistchart := Blank\<rparr>)
               | Some ac \<Rightarrow>
                   Returned (p\<lparr>artistchart := shown (take 20 (object_entries array_index ac))\<rparr>))
         else (case (case top_artists_per_genre st of
                       None \<Rightarrow> Undefined
                     | Some m \<Rightarrow> get_prop m (the g)) of
                 Undefined \<Rightarrow> fallback
               | Own l \<Rightarrow>
                   if l \<noteq> [] then Returned (p\<lparr>artistchart := shown l\<rparr>) else fallback
               | Inherited k \<Rightarrow>
                   (case inherited_length k of
                      None \<Rightarrow> fallback
                    | Some n \<Rightarrow>
                        if n \<noteq> 0 then Thrown TypeError (p\<lparr>artistchart := Blank\<rparr>)
                        else fallback)))"

text \<open>\<^verbatim>\<open>renderYearHistogramFromFiles(files, selectedGenre)\<close>, lines 216-232.\<close>

definition renderYearHistogramFromFiles ::
  "(int \<Rightarrow> int) \<Rightarrow> file_rec list option \<Rightarrow> string option \<Rightarrow> page \<Rightarrow> outcome" where
  "renderYearHistogramFromFiles tz files sel p =
     (let entries = year_histogram tz files sel
      in if entries = [] then Returned (p\<lparr>yearhist := Blank\<rparr>)
         else Returned (p\<lparr>yearhist := Years entries\<rparr>))"

text \<open>\<^verbatim>\<open>renderAddedTimelineFromFiles(files, selectedGenre)\<close>, lines 233-260.\<close>

definition renderAddedTimelineFromFiles ::
  "(int \<Rightarrow> int) \<Rightarrow> file_rec list option \<Rightarrow> string option \<Rightarrow> page \<Rightarrow> outcome" where
  "renderAddedTimelineFromFiles tz files sel p =
     (let entries = added_timeline tz files sel
      in if entries = [] then Returned (p\<lparr>timeline := Blank\<rparr>)
         else Returned (p\<lparr>timeline := Years entries\<rparr>))"

text \<open>\<^verbatim>\<open>renderGenrePie(stats, selectedGenre)\<close>, lines 294-362.\<close>

definition renderGenrePie :: "stats \<Rightarrow> string option \<Rightarrow> page \<Rightarrow> outcome" where
  "renderGenrePie st sel p =
     (case genre_counts st of
        None \<Rightarrow> Thrown TypeError (p\<lparr>genrepie := Blank\<rparr>)
      | Some gc \<Rightarrow>
          (let es = filter not_unknown (object_entries array_index gc)
           in case genre_percentages st of
                None \<Rightarrow>
                  if es = [] then Returned (p\<lparr>genrepie := Slices []\<rparr>)
                  else Thrown TypeError (p\<lparr>genrepie := Blank\<rparr>)
              | Some gp \<Rightarrow>
                  Returned (p\<lparr>genrepie :=
                    Slices (take 30 (sort_key (\<lambda>(g, c, pct). - int c)
                                      (map (\<lambda>(g, c). (g, c, get_prop gp g)) es)))\<rparr>)))"

text \<open>\<^verbatim>\<open>renderGenreRadar(stats, highlightGenre)\<close>, lines 364-420.\<close>

definition renderGenreRadar :: "stats \<Rightarrow> string option \<Rightarrow> page \<Rightarrow> outcome" where
  "renderGenreRadar st g p =
     (case top_genres st of
        None \<Rightarrow> Thrown TypeError (p\<lparr>genreradar := Blank\<rparr>)
      | Some tg \<Rightarrow>
          (let top = take 6 tg
           in if top = [] then Returned (p\<lparr>genreradar := Blank\<rparr>)
              else (case genre_percentages st of
                      None \<Rightarrow> Thrown TypeError (p\<lparr>genreradar := Blank\<rparr>)
                    | Some gp \<Rightarrow>
                        Returned (p\<lparr>genreradar :=
                          Radar (map (\<lambda>(g, c).
                                        (g, case get_prop gp g of Undefined \<Rightarrow> Own 0 | v \<Rightarrow> v))
                                     top)\<rparr>))))"

text \<open>
  \<^verbatim>\<open>applyGenreFilter(selectedGenre)\<close>, lines 274-292, with \<^verbatim>\<open>window.__MLV.stats\<close> and
  \<^verbatim>\<open>window.__MLV.files\<close> as arguments. The calls run in the order of the source; a
  throw ends the function.
\<close>

definition applyGenreFilter ::
  "(int \<Rightarrow> int) \<Rightarrow> stats \<Rightarrow> file_rec list option \<Rightarrow> string option \<Rightarrow> page \<Rightarrow> outcome" where
  "applyGenreFilter tz st files sel p =
     (let g = (if sel = Some ''__all__'' then None else sel);
          p0 = p\<lparr>selectedGenre := sel,
                 genre_select_value := (if truthy_str sel then the sel else ''__all__'')\<rparr>
      in and_then (and_then (and_then (and_then (and_then (and_then (and_then (and_then
           (renderSummary st files sel p0)
           (renderDurationBins st))
           (renderGenreBar st sel))
           (renderGenrePie st sel))
           (renderArtistBar g st files))
           (renderDurationDistribution st g files))
           (renderYearHistogramFromFiles tz files sel))
           (renderAddedTimelineFromFiles tz files sel))
           (renderGenreRadar st g))"

text \<open>The start of the page, lines 262-272, once both documents are loaded.\<close>

definition initial_page :: page where
  "initial_page =
     \<lparr>selectedGenre = Some ''__all__'', genre_select_value = ''__all__'', genre_options = [],
      summarytext = Blank, duration_bins_box = Blank, barchart = Blank, genrepie = Blank,
      artistchart = Blank, durhist = Blank, yearhist = Blank, timeline = Blank,
      genreradar = Blank\<rparr>"

definition main :: "(int \<Rightarrow> int) \<Rightarrow> stats \<Rightarrow> file_rec list option \<Rightarrow> outcome" where
  "main tz st files =
     and_then (and_then (populateGenreSelect st initial_page)
                        (renderDurationBins st))
              (applyGenreFilter tz st files (Some ''__all__''))"

section \<open>The matcher, the default view and the year extractor as the specification words them\<close>

text \<open>
  The specification splits the genre field "on any of comma, semicolon, slash, or pipe":
  every single delimiter ends a part, so two delimiters in a row enclose an empty part.
\<close>

fun split_each :: "string \<Rightarrow> string list" where
  "split_each [] = [[]]"
| "split_each (c # cs) =
     (if is_delim c then [] # split_each cs
      else (case split_each cs of [] \<Rightarrow> [[c]] | w # ws \<Rightarrow> (c # w) # ws))"

text \<open>The trimmed, non-empty parts of a genre field.\<close>

definition spec_parts :: "string \<Rightarrow> string list" where
  "spec_parts s = filter (\<lambda>p. p \<noteq> []) (map trim (split_each s))"

text \<open>
  \<open>matches(file, genre)\<close> of the specification: some part equals the whole target when
  both are lower-cased; without a genre field nothing matches.
\<close>

definition matches_spec :: "file_rec option \<Rightarrow> string \<Rightarrow> bool" where
  "matches_spec fl g =
     (case fl of
        None \<Rightarrow> False
      | Some f \<Rightarrow>
          (case genre f of
             None \<Rightarrow> False
           | Some s \<Rightarrow> list_ex (\<lambda>p. toLowerCase p = toLowerCase g) (spec_parts s)))"

text \<open>
  The default view of the specification: the genre field is present (and not empty) and
  no delimiter-split, trimmed part is "unknown" in any case.
\<close>

definition default_view_spec :: "file_rec \<Rightarrow> bool" where
  "default_view_spec f =
     (case genre f of
        None \<Rightarrow> False
      | Some s \<Rightarrow>
          s \<noteq> [] \<and> \<not> list_ex (\<lambda>p. toLowerCase p = toLowerCase ''unknown'')
                              (map trim (split_each s)))"

text \<open>
  The Year Extractor of the specification: the first place in the date text where a
  4-digit sequence beginning with "19" or "20" stands, and otherwise the year of
  \<open>mtime_epoch\<close> whenever that field is present.
\<close>

definition is_year_token :: "string \<Rightarrow> bool" where
  "is_year_token w =
     (length w = 4 \<and> (take 2 w = ''19'' \<or> take 2 w = ''20'') \<and> list_all is_digit (drop 2 w))"

definition spec_year_token :: "string \<Rightarrow> string option" where
  "spec_year_token s =
     (case filter (\<lambda>i. is_year_token (take 4 (drop i s))) [0..<length s] of
        [] \<Rightarrow> None
      | i # _ \<Rightarrow> Some (take 4 (drop i s)))"

definition yearOf_spec :: "(int \<Rightarrow> int) \<Rightarrow> file_rec \<Rightarrow> jsnum option" where
  "yearOf_spec tz f =
     (case (case date f of None \<Rightarrow> None | Some s \<Rightarrow> spec_year_token s) of
        Some w \<Rightarrow> Some (Num (to_number w))
      | None \<Rightarrow>
          (case mtime_epoch f of
             None \<Rightarrow> None
           | Some t \<Rightarrow> Some (getFullYear tz (new_Date (t * 1000)))))"

text \<open>
  The duration bins of the specification: the label is taken from the duration itself,
  \<open><2m\<close> below 120 seconds, \<open>2-4m\<close> from 120 and below 240, and so on.
\<close>

definition spec_duration_label :: "rat \<Rightarrow> string" where
  "spec_duration_label x =
     (if x < 120 then ''<2m''
      else if x < 240 then ''2-4m''
      else if x < 360 then ''4-6m''
      else if x < 720 then ''6-12m''
      else ''12m+'')"

section \<open>Auxiliary facts\<close>

lemma toLowerCase_unknown: "toLowerCase ''unknown'' = ''unknown''"
  by (simp add: toLowerCase_def lower_char_def)

lemma toLowerCase_Nil_iff: "toLowerCase p = [] \<longleftrightarrow> p = []"
  by (simp add: toLowerCase_def)

lemma trim_Nil: "trim [] = []"
  by (simp add: trim_def)

lemma split_each_not_Nil: "split_each s \<noteq> []"
  by (induction s) (auto split: list.splits)

lemma split_each_no_delim:
  "\<forall>c \<in> set xs. \<not> is_delim c \<Longrightarrow>
     split_each (xs @ ys) = (xs @ hd (split_each ys)) # tl (split_each ys)"
  using split_each_not_Nil by (induction xs) (auto split: list.splits)

lemma split_each_delims:
  "\<forall>c \<in> set ds. is_delim c \<Longrightarrow>
     filter (\<lambda>p. p \<noteq> []) (split_each (ds @ ys)) = filter (\<lambda>p. p \<noteq> []) (split_each ys)"
  by (induction ds) auto

lemma split_delims_split_each:
  "filter (\<lambda>p. p \<noteq> []) (split_delims s) = filter (\<lambda>p. p \<noteq> []) (split_each s)"
proof (induction s rule: split_delims.induct)
  case (1 s)
  define piece where "piece = takeWhile (\<lambda>c. \<not> is_delim c) s"
  define rest where "rest = dropWhile (\<lambda>c. \<not> is_delim c) s"
  have s: "s = piece @ rest"
    by (simp add: piece_def rest_def)
  have nd: "\<forall>c \<in> set piece. \<not> is_delim c"
    unfolding piece_def by (auto dest: set_takeWhileD)
  have unf: "split_delims s =
      (if rest = [] then [piece] else piece # split_delims (dropWhile is_delim rest))"
    unfolding piece_def rest_def by (subst split_delims.simps) (simp add: Let_def)
  show ?case
  proof (cases "rest = []")
    case True
    then have "split_delims s = [piece]"
      using unf by simp
    moreover have "split_each s = [piece]"
      using split_each_no_delim [OF nd, of "[]"] s True by simp
    ultimately show ?thesis by simp
  next
    case False
    define ds where "ds = takeWhile is_delim rest"
    define after where "after = dropWhile is_delim rest"
    have r: "rest = ds @ after"
      by (simp add: ds_def after_def)
    have dd: "\<forall>c \<in> set ds. is_delim c"
      unfolding ds_def by (auto dest: set_takeWhileD)
    obtain c cs where rc: "rest = c # cs"
      using False by (cases rest) simp_all
    have cd: "is_delim c"
      using rc dropWhile_eq_Cons_conv [of "\<lambda>c. \<not> is_delim c" s c cs] by (simp add: rest_def)
    have sd: "split_delims s = piece # split_delims after"
      using False unf by (simp add: after_def)
    have "split_each s = piece # split_each cs"
      using split_each_no_delim [OF nd, of rest] s rc cd by simp
    moreover have "filter (\<lambda>p. p \<noteq> []) (split_each cs) = filter (\<lambda>p. p \<noteq> []) (split_each after)"
    proof -
      have "ds = c # takeWhile is_delim cs" and "after = dropWhile is_delim cs"
        using rc cd by (simp_all add: ds_def after_def)
      then have "cs = takeWhile is_delim cs @ after" by simp
      moreover have "\<forall>c \<in> set (takeWhile is_delim cs). is_delim c"
        by (auto dest: set_takeWhileD)
      ultimately show ?thesis
        using split_each_delims [of "takeWhile is_delim cs" after] by simp
    qed
    moreover have "filter (\<lambda>p. p \<noteq> []) (split_delims after) = filter (\<lambda>p. p \<noteq> []) (split_each after)"
      using "1.IH" [of piece rest] False by (simp add: piece_def rest_def after_def)
    ultimately show ?thesis
      using sd by simp
  qed
qed

lemma filter_map_trim:
  "filter (\<lambda>p. p \<noteq> []) (map trim xs) = filter (\<lambda>p. p \<noteq> []) (map trim (filter (\<lambda>p. p \<noteq> []) xs))"
  by (induction xs) (auto simp: trim_Nil)

lemma genre_parts_spec_parts: "genre_parts s = spec_parts s"
  unfolding genre_parts_def spec_parts_def
  using filter_map_trim [of "split_delims s"] filter_map_trim [of "split_each s"]
    split_delims_split_each [of s] by simp

lemma spec_parts_Nil: "spec_parts [] = []"
  by (simp add: spec_parts_def trim_Nil)

lemma list_ex_filter_nonempty:
  "\<not> P [] \<Longrightarrow> list_ex P (filter (\<lambda>p. p \<noteq> []) xs) = list_ex P xs"
  by (induction xs) auto

lemma default_keep_spec: "default_keep f = default_view_spec f"
proof (cases "genre f")
  case None
  then show ?thesis by (simp add: default_keep_def default_view_spec_def)
next
  case (Some s)
  have "list_ex (\<lambda>p. toLowerCase p = ''unknown'') (genre_parts s)
        = list_ex (\<lambda>p. toLowerCase p = ''unknown'') (map trim (split_each s))"
    using list_ex_filter_nonempty [of "\<lambda>p. toLowerCase p = ''unknown''" "map trim (split_each s)"]
    by (simp add: genre_parts_spec_parts spec_parts_def toLowerCase_def)
  then show ?thesis
    using Some by (simp add: default_keep_def default_view_spec_def toLowerCase_unknown)
qed

lemma map_of_bump:
  "map_of (bump k kvs) = (map_of kvs)(k \<mapsto> (case map_of kvs k of None \<Rightarrow> 1 | Some n \<Rightarrow> n + 1))"
  by (induction k kvs rule: bump.induct) (auto simp: fun_eq_iff)

lemma fst_set_bump: "fst ` set (bump k kvs) = insert k (fst ` set kvs)"
  by (induction k kvs rule: bump.induct) auto

lemma distinct_bump: "distinct (map fst kvs) \<Longrightarrow> distinct (map fst (bump k kvs))"
  by (induction k kvs rule: bump.induct) (auto simp: fst_set_bump)

lemma sum_bump: "sum_list (map snd (bump k kvs)) = sum_list (map snd kvs) + 1"
  by (induction k kvs rule: bump.induct) auto

lemma foldl_step_distinct:
  "distinct (map fst acc) \<Longrightarrow> distinct (map fst (foldl (count_step key) acc xs))"
  by (induction xs arbitrary: acc) (auto simp: count_step_def distinct_bump split: option.splits)

lemma foldl_step_map_of:
  "map_of (foldl (count_step key) acc xs) k =
     (let c = length (filter (\<lambda>x. key x = Some k) xs)
      in if c = 0 then map_of acc k
         else Some (c + (case map_of acc k of None \<Rightarrow> 0 | Some n \<Rightarrow> n)))"
proof (induction xs arbitrary: acc)
  case Nil
  then show ?case by simp
next
  case (Cons x xs)
  show ?case
  proof (cases "key x")
    case None
    then show ?thesis using Cons [of acc] by (simp add: count_step_def)
  next
    case (Some k')
    then show ?thesis
      using Cons [of "bump k' acc"]
      by (auto simp: count_step_def map_of_bump Let_def split: option.splits)
  qed
qed

lemma foldl_step_sum:
  "sum_list (map snd (foldl (count_step key) acc xs)) =
     sum_list (map snd acc) + length (filter (\<lambda>x. key x \<noteq> None) xs)"
  by (induction xs arbitrary: acc) (auto simp: count_step_def sum_bump split: option.splits)

lemma distinct_tally: "distinct (map fst (tally key xs))"
  by (simp add: tally_def foldl_step_distinct)

lemma map_of_tally:
  "map_of (tally key xs) k =
     (if length (filter (\<lambda>x. key x = Some k) xs) = 0 then None
      else Some (length (filter (\<lambda>x. key x = Some k) xs)))"
  by (simp add: tally_def foldl_step_map_of Let_def)

lemma tally_mem:
  "(k, n) \<in> set (tally key xs) \<longleftrightarrow> 0 < n \<and> n = length (filter (\<lambda>x. key x = Some k) xs)"
proof -
  have "(k, n) \<in> set (tally key xs) \<longleftrightarrow> map_of (tally key xs) k = Some n"
    using map_of_eq_Some_iff [OF distinct_tally, of key xs k n] by simp
  then show ?thesis
    by (auto simp: map_of_tally split: if_splits)
qed

lemma sum_tally:
  "sum_list (map snd (tally key xs)) = length (filter (\<lambda>x. key x \<noteq> None) xs)"
  by (simp add: tally_def foldl_step_sum)

lemma set_object_entries: "set (object_entries idx kvs) = set kvs"
  by (auto simp: object_entries_def)

lemma length_object_entries: "length (object_entries idx kvs) = length kvs"
  using sum_length_filter_compl [of "\<lambda>(k, v). idx k \<noteq> None" kvs]
  by (simp add: object_entries_def case_prod_unfold)

lemma distinct_object_entries:
  assumes "distinct (map fst kvs)"
  shows "distinct (map fst (object_entries idx kvs))"
proof -
  from assms have d: "distinct kvs" and i: "inj_on fst (set kvs)"
    by (simp_all add: distinct_map)
  have "distinct (object_entries idx kvs)"
    using d by (auto simp: object_entries_def)
  then show ?thesis
    using i by (simp add: distinct_map set_object_entries)
qed

lemma mset_object_entries: "mset (object_entries idx kvs) = mset kvs"
proof -
  have "mset (object_entries idx kvs)
        = filter_mset (\<lambda>x. idx (fst x) \<noteq> None) (mset kvs)
          + filter_mset (\<lambda>x. \<not> idx (fst x) \<noteq> None) (mset kvs)"
    by (simp add: object_entries_def case_prod_unfold)
  then show ?thesis
    using multiset_partition [of "mset kvs" "\<lambda>x. idx (fst x) \<noteq> None"] by simp
qed

lemma sum_list_entries:
  "sum_list (map snd (sort_key f (object_entries idx kvs))) = sum_list (map snd (kvs :: ('k \<times> nat) list))"
proof -
  have "mset (map snd (sort_key f (object_entries idx kvs))) = mset (map snd kvs)"
    by (simp add: mset_object_entries)
  then show ?thesis
    by (metis sum_mset_sum_list)
qed

lemma duration_label_cases:
  "(duration_label d = ''<2m'') = (d < 120)"
  "(duration_label d = ''2-4m'') = (120 \<le> d \<and> d \<le> 239)"
  "(duration_label d = ''4-6m'') = (240 \<le> d \<and> d \<le> 359)"
  "(duration_label d = ''6-12m'') = (360 \<le> d \<and> d \<le> 719)"
  "(duration_label d = ''12m+'') = (720 \<le> d)"
  by (simp_all add: duration_label_def)

lemma duration_label_in:
  "duration_label d \<in> set [''<2m'', ''2-4m'', ''4-6m'', ''6-12m'', ''12m+'']"
  by (simp add: duration_label_def)

lemma artist_key_Some: "artist_key f = Some a \<longleftrightarrow> artist f = Some a \<and> a \<noteq> []"
  by (auto simp: artist_key_def truthy_str_def split: option.splits)

lemma sorted_desc_sort_key:
  "sorted_wrt (\<lambda>x y. snd y \<le> snd x) (sort_key (\<lambda>(a, c). - int c) (xs :: ('a \<times> nat) list))"
proof -
  have "sorted (map (\<lambda>(a, c). - int c) (sort_key (\<lambda>(a, c). - int c) xs))"
    by (rule sorted_sort_key)
  then show ?thesis
    by (simp add: sorted_map case_prod_unfold)
qed

lemma sorted_wrt_nth_strict:
  assumes "sorted_wrt (\<lambda>x y. snd y \<le> snd x) (R :: ('a \<times> nat) list)"
    and "i < length R" and "j < length R" and "snd (R ! j) < snd (R ! i)"
  shows "i < j"
proof (rule ccontr)
  assume "\<not> i < j"
  then consider "j = i" | "j < i" by linarith
  then show False
  proof cases
    case 1
    then show ?thesis using assms(4) by simp
  next
    case 2
    then have "snd (R ! i) \<le> snd (R ! j)"
      using assms(1,2) by (simp add: sorted_wrt_iff_nth_less)
    then show ?thesis using assms(4) by simp
  qed
qed

lemma take_drop_sorted:
  assumes "sorted_wrt (\<lambda>x y. snd y \<le> snd x) (S :: ('a \<times> nat) list)"
    and "x \<in> set (take m S)" and "y \<in> set (drop m S)"
  shows "snd y \<le> snd x"
proof -
  have "sorted_wrt (\<lambda>x y. snd y \<le> snd x) (take m S @ drop m S)"
    using assms(1) by simp
  then show ?thesis
    using assms(2,3) unfolding sorted_wrt_append by blast
qed

lemma div_bounds:
  fixes x k :: int
  assumes "0 < k"
  shows "k * (x div k) \<le> x" and "x < k * (x div k) + k"
proof -
  have "x = k * (x div k) + x mod k" by simp
  moreover have "0 \<le> x mod k" and "x mod k < k"
    using assms by simp_all
  ultimately show "k * (x div k) \<le> x" and "x < k * (x div k) + k"
    by linarith+
qed

lemma year_estimate_lo:
  fixes a b c q d D :: int
  assumes "4 * a \<le> q" "q + 68 < 100 * b + 100" "400 * c \<le> q + 368"
    "D = 365 * (q - 1) + a - b + c" "146097 * q \<le> 400 * d"
  shows "D \<le> d"
proof -
  have 1: "400 * a \<le> 100 * q" using assms(1) by simp
  have 2: "4 * q - 128 \<le> 400 * b" using assms(2) by simp
  have "400 * D = 146000 * q - 146000 + 400 * a - 400 * b + 400 * c"
    using assms(4) by simp
  also have "\<dots> \<le> 146000 * q - 146000 + 100 * q - (4 * q - 128) + (q + 368)"
    using 1 2 assms(3) by simp
  also have "\<dots> \<le> 146097 * q" by simp
  also have "\<dots> \<le> 400 * d" by (rule assms(5))
  finally show ?thesis by simp
qed

lemma year_estimate_hi:
  fixes a b c q d D :: int
  assumes "q + 3 < 4 * a + 4" "100 * b \<le> q + 71" "q + 371 < 400 * c + 400"
    "D = 365 * (q + 2) + a - b + c" "400 * d < 146097 * q + 146097"
  shows "d < D"
proof -
  have 1: "100 * q - 100 \<le> 400 * a" using assms(1) by simp
  have 2: "400 * b \<le> 4 * q + 284" using assms(2) by simp
  have 3: "q - 29 \<le> 400 * c" using assms(3) by simp
  have "400 * d < 146097 * q + 146097" by (rule assms(5))
  also have "\<dots> \<le> 146000 * q + 292000 + (100 * q - 100) - (4 * q + 284) + (q - 29)"
    by simp
  also have "\<dots> \<le> 146000 * q + 292000 + 400 * a - 400 * b + 400 * c"
    using 1 2 3 by simp
  also have "\<dots> = 400 * D"
    using assms(4) by simp
  finally show ?thesis by simp
qed

lemma YearFromTime_spec:
  "DayFromYear (YearFromTime t) \<le> Day t \<and> Day t < DayFromYear (YearFromTime t + 1)"
proof -
  define d where "d = Day t"
  define q where "q = (400 * d) div 146097"
  have q1: "146097 * q \<le> 400 * d" and q2: "400 * d < 146097 * q + 146097"
    unfolding q_def using div_bounds [of 146097 "400 * d"] by simp_all
  have lo: "DayFromYear (1969 + q) \<le> d"
  proof (rule year_estimate_lo [OF _ _ _ _ q1])
    show "4 * (q div 4) \<le> q"
      using div_bounds [of 4 q] by simp
    show "q + 68 < 100 * ((q + 68) div 100) + 100"
      using div_bounds [of 100 "q + 68"] by simp
    show "400 * ((q + 368) div 400) \<le> q + 368"
      using div_bounds [of 400 "q + 368"] by simp
    show "DayFromYear (1969 + q) = 365 * (q - 1) + q div 4 - (q + 68) div 100 + (q + 368) div 400"
      by (simp add: DayFromYear_def add.commute)
  qed
  have hi: "d < DayFromYear (1972 + q)"
  proof (rule year_estimate_hi [OF _ _ _ _ q2])
    show "q + 3 < 4 * ((q + 3) div 4) + 4"
      using div_bounds [of 4 "q + 3"] by simp
    show "100 * ((q + 71) div 100) \<le> q + 71"
      using div_bounds [of 100 "q + 71"] by simp
    show "q + 371 < 400 * ((q + 371) div 400) + 400"
      using div_bounds [of 400 "q + 371"] by simp
    show "DayFromYear (1972 + q) = 365 * (q + 2) + (q + 3) div 4 - (q + 71) div 100 + (q + 371) div 400"
      by (simp add: DayFromYear_def add.commute)
  qed
  have y: "YearFromTime t =
      (if d < DayFromYear (1970 + q) then 1969 + q
       else if DayFromYear (1971 + q) \<le> d then 1971 + q else 1970 + q)"
    by (simp add: YearFromTime_def Let_def d_def q_def algebra_simps)
  show ?thesis
    unfolding d_def [symmetric] y using lo hi by (simp add: algebra_simps)
qed

lemma DayFromYear_Suc: "DayFromYear y + 364 \<le> DayFromYear (y + 1)"
proof -
  define a where "a = (y - 1969) div 4"
  define a' where "a' = (y + 1 - 1969) div 4"
  define b where "b = (y - 1901) div 100"
  define b' where "b' = (y + 1 - 1901) div 100"
  define c where "c = (y - 1601) div 400"
  define c' where "c' = (y + 1 - 1601) div 400"
  have "a \<le> a'"
    unfolding a_def a'_def by (rule zdiv_mono1) simp_all
  moreover have "c \<le> c'"
    unfolding c_def c'_def by (rule zdiv_mono1) simp_all
  moreover have "b' \<le> b + 1"
  proof -
    have "(y + 1 - 1901) div 100 \<le> (y - 1901 + 100) div 100"
      by (rule zdiv_mono1) simp_all
    then show ?thesis by (simp add: b_def b'_def)
  qed
  moreover have "DayFromYear y = 365 * (y - 1970) + a - b + c"
    by (simp add: DayFromYear_def a_def b_def c_def)
  moreover have "DayFromYear (y + 1) = 365 * (y - 1970) + 365 + a' - b' + c'"
    by (simp add: DayFromYear_def a'_def b'_def c'_def)
  ultimately show ?thesis
    by linarith
qed

lemma DayFromYear_mono: "y \<le> y' \<Longrightarrow> DayFromYear y \<le> DayFromYear y'"
proof (induction "nat (y' - y)" arbitrary: y')
  case 0
  then show ?case by simp
next
  case (Suc n)
  then have "n = nat (y' - 1 - y)" and "y \<le> y' - 1" by linarith+
  then have "DayFromYear y \<le> DayFromYear (y' - 1)"
    using Suc.hyps(1) by blast
  then show ?case
    using DayFromYear_Suc [of "y' - 1"] by simp
qed

lemma YearFromTime_unique:
  assumes "DayFromYear y \<le> Day t" and "Day t < DayFromYear (y + 1)"
  shows "YearFromTime t = y"
proof (rule ccontr)
  assume ne: "YearFromTime t \<noteq> y"
  then consider "YearFromTime t + 1 \<le> y" | "y + 1 \<le> YearFromTime t" by linarith
  then show False
  proof cases
    case 1
    then have "DayFromYear (YearFromTime t + 1) \<le> DayFromYear y"
      by (rule DayFromYear_mono)
    then show ?thesis
      using YearFromTime_spec [of t] assms by linarith
  next
    case 2
    then have "DayFromYear (y + 1) \<le> DayFromYear (YearFromTime t)"
      by (rule DayFromYear_mono)
    then show ?thesis
      using YearFromTime_spec [of t] assms by linarith
  qed
qed

lemma YearFromTime_examples:
  "YearFromTime 0 = 1970" "YearFromTime (-1) = 1969"
  "YearFromTime (1000000000 * 1000) = 2001" "YearFromTime 1704067199999 = 2023"
  "YearFromTime 1704067200000 = 2024" "YearFromTime 951782400000 = 2000"
  by (simp_all add: YearFromTime_def Day_def msPerDay_def DayFromYear_def)

lemma spec_year_token_Cons:
  "spec_year_token (x # xs) =
     (if is_year_token (take 4 (x # xs)) then Some (take 4 (x # xs)) else spec_year_token xs)"
proof -
  have upt: "[0..<length (x # xs)] = 0 # map Suc [0..<length xs]"
    by (simp add: upt_conv_Cons map_Suc_upt del: upt_Suc)
  have "filter (\<lambda>i. is_year_token (take 4 (drop i (x # xs)))) (map Suc [0..<length xs])
        = map Suc (filter (\<lambda>i. is_year_token (take 4 (drop i xs))) [0..<length xs])"
    by (simp add: filter_map comp_def)
  then show ?thesis
    unfolding spec_year_token_def upt
    by (simp split: list.splits)
qed

lemma spec_year_token_short: "length s < 4 \<Longrightarrow> spec_year_token s = None"
proof -
  assume "length s < 4"
  then have "\<not> is_year_token (take 4 (drop i s))" for i
    by (simp add: is_year_token_def)
  then show ?thesis
    by (simp add: spec_year_token_def)
qed

lemma is_year_token_4:
  "is_year_token [a, b, c, d] \<longleftrightarrow>
     ((a = CHR ''1'' \<and> b = CHR ''9'') \<or> (a = CHR ''2'' \<and> b = CHR ''0''))
     \<and> is_digit c \<and> is_digit d"
  by (simp add: is_year_token_def)

lemma year_match_spec: "year_match s = spec_year_token s"
proof (induction s rule: year_match.induct)
  case (1 a b c d rest)
  then show ?case
    using is_year_token_4 [of a b c d]
    by (auto simp: spec_year_token_Cons [of a])
qed (simp_all add: spec_year_token_short)

lemma spec_year_token_is_token: "spec_year_token s = Some w \<Longrightarrow> is_year_token w"
proof -
  assume a: "spec_year_token s = Some w"
  then obtain i rest where f: "filter (\<lambda>i. is_year_token (take 4 (drop i s))) [0..<length s] = i # rest"
    and w: "w = take 4 (drop i s)"
    by (auto simp: spec_year_token_def split: list.splits)
  from f have "i \<in> set (filter (\<lambda>i. is_year_token (take 4 (drop i s))) [0..<length s])"
    by simp
  then show ?thesis
    using w by simp
qed

lemma digit_val_range: "is_digit c \<Longrightarrow> 0 \<le> digit_val c \<and> digit_val c \<le> 9"
  by (auto simp: is_digit_def digit_val_def)

lemma digit_val_simps:
  "digit_val CHR ''0'' = 0" "digit_val CHR ''1'' = 1" "digit_val CHR ''2'' = 2"
  "digit_val CHR ''9'' = 9"
  by (simp_all add: digit_val_def)

lemma to_number_4:
  "to_number [a, b, c, d] =
     1000 * digit_val a + 100 * digit_val b + 10 * digit_val c + digit_val d"
  by (simp add: to_number_def)

lemma year_token_range:
  assumes "is_year_token w"
  shows "1900 \<le> to_number w \<and> to_number w \<le> 2099"
proof -
  from assms have "length w = Suc (Suc (Suc (Suc 0)))"
    by (simp add: is_year_token_def)
  then obtain a b c d where w: "w = [a, b, c, d]"
    by (auto simp: length_Suc_conv)
  with assms have ab: "(a = CHR ''1'' \<and> b = CHR ''9'') \<or> (a = CHR ''2'' \<and> b = CHR ''0'')"
    and c: "is_digit c" and d: "is_digit d"
    by (simp_all add: is_year_token_4)
  from ab have "to_number w = 1900 + (10 * digit_val c + digit_val d)
      \<or> to_number w = 2000 + (10 * digit_val c + digit_val d)"
    unfolding w to_number_4 by (elim disjE conjE) (simp_all only: digit_val_simps, simp_all)
  then show ?thesis
    using digit_val_range [OF c] digit_val_range [OF d] by linarith
qed

lemma hist_key_Some:
  "hist_key tz f = Some y \<longleftrightarrow> getYearFromFile tz (Some f) = Some (Num y) \<and> y \<noteq> 0"
  by (auto simp: hist_key_def split: option.splits jsnum.splits)

lemma timeline_key_Some:
  "timeline_key tz f = Some y \<longleftrightarrow> added_year tz f = Num y \<and> y \<noteq> 0"
  by (auto simp: timeline_key_def split: jsnum.splits)

lemma sorted_entries_by_year:
  fixes kvs :: "(int \<times> nat) list"
  assumes "distinct (map fst kvs)"
  shows "sorted (map fst (sort_key fst (object_entries year_index kvs)))"
    and "distinct (map fst (sort_key fst (object_entries year_index kvs)))"
    and "set (sort_key fst (object_entries year_index kvs)) = set kvs"
proof -
  show "sorted (map fst (sort_key fst (object_entries year_index kvs)))"
    by (rule sorted_sort_key)
  have "distinct (map fst (object_entries year_index kvs))"
    using assms by (rule distinct_object_entries)
  then show "distinct (map fst (sort_key fst (object_entries year_index kvs)))"
    by (simp add: distinct_map)
  show "set (sort_key fst (object_entries year_index kvs)) = set kvs"
    by (simp add: set_object_entries)
qed

lemma epoch_year_range:
  assumes "\<bar>z\<bar> \<le> msPerDay"
  shows "YearFromTime z = 1969 \<or> YearFromTime z = 1970"
proof -
  define d where "d = Day z"
  have "86400000 * d \<le> z" and "z < 86400000 * d + 86400000"
    unfolding d_def Day_def msPerDay_def using div_bounds [of 86400000 z] by simp_all
  moreover have "z \<le> 86400000" and "- 86400000 \<le> z"
    using assms by (simp_all add: msPerDay_def)
  ultimately have "86400000 * d \<le> 86400000 * 1" and "86400000 * (- 2) < 86400000 * d"
    by linarith+
  then have "d \<le> 1" and "- 2 < d"
    by simp_all
  then have "d = -1 \<or> d = 0 \<or> d = 1"
    by linarith
  then show ?thesis
    unfolding d_def by (auto simp: YearFromTime_def DayFromYear_def Let_def)
qed

lemma date_year_spec:
  "date_year f = (case date f of None \<Rightarrow> None | Some s \<Rightarrow> map_option to_number (spec_year_token s))"
proof (cases "date f")
  case None
  then show ?thesis by (simp add: date_year_def)
next
  case (Some s)
  then show ?thesis
    by (cases "s = []") (simp_all add: date_year_def year_match_spec spec_year_token_short)
qed

lemma getFullYear_in_range:
  "\<bar>v\<bar> \<le> 8640000000000000 \<Longrightarrow> getFullYear tz (new_Date v) = Num (YearFromTime (v + tz v))"
  by (simp add: getFullYear_def new_Date_def)

lemma length_filter_mono:
  "(\<And>x. x \<in> set xs \<Longrightarrow> P x \<Longrightarrow> Q x) \<Longrightarrow> length (filter P xs) \<le> length (filter Q xs)"
  by (induction xs) auto

text \<open>
  Which keys of the statistics \<^verbatim>\<open>applyGenreFilter\<close> can do without: it returns whenever
  \<^verbatim>\<open>summary\<close>, \<^verbatim>\<open>genre_counts\<close>, \<^verbatim>\<open>genre_percentages\<close>, \<^verbatim>\<open>top_genres\<close> and
  \<^verbatim>\<open>artist_counts\<close> are present, whatever else is missing, for a selection that is
  not the name of a member of \<^verbatim>\<open>Object.prototype\<close>.
\<close>

lemma and_then_returns:
  assumes "\<exists>p'. r = Returned p'" and "\<And>p. \<exists>p'. k p = Returned p'"
  shows "\<exists>p'. and_then r k = Returned p'"
  using assms by (auto simp: and_then_def)

lemma renderSummary_returns:
  "summary st \<noteq> None \<Longrightarrow> \<exists>p'. renderSummary st files sel p = Returned p'"
  by (auto simp: renderSummary_def)

lemma renderDurationBins_returns: "\<exists>p'. renderDurationBins st p = Returned p'"
  by (cases "duration_bins st") (simp_all add: renderDurationBins_def)

lemma renderGenreBar_returns:
  "genre_counts st \<noteq> None \<Longrightarrow> \<exists>p'. renderGenreBar st sel p = Returned p'"
  by (auto simp: renderGenreBar_def)

lemma renderGenrePie_returns:
  "genre_counts st \<noteq> None \<Longrightarrow> genre_percentages st \<noteq> None \<Longrightarrow>
     \<exists>p'. renderGenrePie st sel p = Returned p'"
  by (auto simp: renderGenrePie_def Let_def)

lemma get_prop_plain:
  "\<not> is_proto_member k \<Longrightarrow> get_prop obj k = (case map_of obj k of None \<Rightarrow> Undefined | Some v \<Rightarrow> Own v)"
  by (simp add: get_prop_def split: option.splits)

lemma renderArtistBar_returns:
  assumes "artist_counts st \<noteq> None" and "\<forall>s. g = Some s \<longrightarrow> \<not> is_proto_member s"
  shows "\<exists>p'. renderArtistBar g st files p = Returned p'"
proof (cases "truthy_str g")
  case False
  then show ?thesis
    using assms(1) by (auto simp: renderArtistBar_def Let_def)
next
  case True
  then obtain s where g: "g = Some s"
    by (cases g) (simp_all add: truthy_str_def)
  then have "\<not> is_proto_member s"
    using assms(2) by simp
  then show ?thesis
    using True g
    by (cases "top_artists_per_genre st")
      (auto simp: renderArtistBar_def Let_def get_prop_plain split: option.splits)
qed

lemma renderDurationDistribution_returns:
  "\<exists>p'. renderDurationDistribution st g files p = Returned p'"
  by (cases "percentiles_shown st g") (simp_all add: renderDurationDistribution_def Let_def)

lemma renderYearHistogramFromFiles_returns:
  "\<exists>p'. renderYearHistogramFromFiles tz files sel p = Returned p'"
  by (simp add: renderYearHistogramFromFiles_def Let_def)

lemma renderAddedTimelineFromFiles_returns:
  "\<exists>p'. renderAddedTimelineFromFiles tz files sel p = Returned p'"
  by (simp add: renderAddedTimelineFromFiles_def Let_def)

lemma renderGenreRadar_returns:
  "top_genres st \<noteq> None \<Longrightarrow> genre_percentages st \<noteq> None \<Longrightarrow>
     \<exists>p'. renderGenreRadar st g p = Returned p'"
  by (auto simp: renderGenreRadar_def Let_def)

lemma guarded_keys_tolerated:
  assumes "summary st \<noteq> None" and "genre_counts st \<noteq> None"
    and "genre_percentages st \<noteq> None" and "top_genres st \<noteq> None"
    and "artist_counts st \<noteq> None"
    and "\<forall>s. sel = Some s \<longrightarrow> \<not> is_proto_member s"
  shows "\<exists>p'. applyGenreFilter tz st files sel p = Returned p'"
proof -
  have "\<forall>s. (if sel = Some ''__all__'' then None else sel) = Some s \<longrightarrow> \<not> is_proto_member s"
    using assms(6) by simp
  then show ?thesis
    unfolding applyGenreFilter_def Let_def
    by (intro and_then_returns renderSummary_returns renderDurationBins_returns
        renderGenreBar_returns renderGenrePie_returns renderArtistBar_returns
        renderDurationDistribution_returns renderYearHistogramFromFiles_returns
        renderAddedTimelineFromFiles_returns renderGenreRadar_returns assms)
qed

text \<open>Two more keys whose absence ends a render function with a \<^verbatim>\<open>TypeError\<close>.\<close>

lemma missing_top_genres_throws:
  "top_genres st = None \<Longrightarrow>
     renderGenreRadar st g p = Thrown TypeError (p\<lparr>genreradar := Blank\<rparr>)"
  by (simp add: renderGenreRadar_def)

lemma missing_genre_percentages_throws:
  assumes "genre_percentages st = None" and "genre_counts st = Some gc"
    and "filter not_unknown (object_entries array_index gc) \<noteq> []"
  shows "renderGenrePie st sel p = Thrown TypeError (p\<lparr>genrepie := Blank\<rparr>)"
  using assms by (simp add: renderGenrePie_def Let_def)

text \<open>\<^verbatim>\<open>Math.round\<close> and the labels, over the duration itself.\<close>

lemma Math_round_less_iff: "Math_round x < n \<longleftrightarrow> x + 1 / 2 < of_int n"
  by (simp add: Math_round_def floor_less_iff)

lemma Math_round_of_int: "Math_round (of_int k) = k"
  by (simp add: Math_round_def floor_eq_iff)

lemma duration_label_round:
  "(duration_label (Math_round x) = ''<2m'') = (x < 239 / 2)"
  "(duration_label (Math_round x) = ''2-4m'') = (239 / 2 \<le> x \<and> x < 479 / 2)"
  "(duration_label (Math_round x) = ''4-6m'') = (479 / 2 \<le> x \<and> x < 719 / 2)"
  "(duration_label (Math_round x) = ''6-12m'') = (719 / 2 \<le> x \<and> x < 1439 / 2)"
  "(duration_label (Math_round x) = ''12m+'') = (1439 / 2 \<le> x)"
proof -
  have a: "Math_round x < 120 \<longleftrightarrow> x < 239 / 2"
    using Math_round_less_iff [of x 120] by auto
  have b: "Math_round x < 240 \<longleftrightarrow> x < 479 / 2"
    using Math_round_less_iff [of x 240] by auto
  have c: "Math_round x < 360 \<longleftrightarrow> x < 719 / 2"
    using Math_round_less_iff [of x 360] by auto
  have d: "Math_round x < 720 \<longleftrightarrow> x < 1439 / 2"
    using Math_round_less_iff [of x 720] by auto
  show "(duration_label (Math_round x) = ''<2m'') = (x < 239 / 2)"
    using a by (simp add: duration_label_def)
  show "(duration_label (Math_round x) = ''2-4m'') = (239 / 2 \<le> x \<and> x < 479 / 2)"
    using a b by (auto simp: duration_label_def)
  show "(duration_label (Math_round x) = ''4-6m'') = (479 / 2 \<le> x \<and> x < 719 / 2)"
    using a b c by (auto simp: duration_label_def)
  show "(duration_label (Math_round x) = ''6-12m'') = (719 / 2 \<le> x \<and> x < 1439 / 2)"
    using a b c d by (auto simp: duration_label_def)
  show "(duration_label (Math_round x) = ''12m+'') = (1439 / 2 \<le> x)"
    using a b c d by (auto simp: duration_label_def)
qed

text \<open>
  The five labels and the members of \<^verbatim>\<open>Object.prototype\<close> are different names, so the
  duration object is a plain map.
\<close>

lemma duration_label_not_proto: "\<not> is_proto_member (duration_label d)"
  by (simp add: duration_label_def is_proto_member_def proto_functions_def)

text \<open>
  The artist object on names that are not members of \<^verbatim>\<open>Object.prototype\<close> is the plain
  map with numbers.
\<close>

lemma obj_bump_plain:
  "map_of proto_functions k = None \<Longrightarrow>
     obj_bump k (map (\<lambda>(a, n). (a, Count n)) kvs) = map (\<lambda>(a, n). (a, Count n)) (bump k kvs)"
  by (induction k kvs rule: bump.induct) auto

lemma foldl_artist_step_plain:
  assumes "\<forall>f \<in> set fs. \<forall>a. artist_key f = Some a \<longrightarrow> \<not> is_proto_member a"
  shows "foldl artist_step (map (\<lambda>(a, n). (a, Count n)) acc) fs
         = map (\<lambda>(a, n). (a, Count n)) (foldl (count_step artist_key) acc fs)"
  using assms
proof (induction fs arbitrary: acc)
  case Nil
  then show ?case by simp
next
  case (Cons f fs)
  show ?case
  proof (cases "artist_key f")
    case None
    then show ?thesis
      using Cons.IH [of acc] Cons.prems by (simp add: artist_step_def count_step_def)
  next
    case (Some a)
    then have "\<not> is_proto_member a"
      using Cons.prems by simp
    then have "a \<noteq> ''__proto__''" and "map_of proto_functions a = None"
      by (simp_all add: is_proto_member_def)
    then have "artist_step (map (\<lambda>(a, n). (a, Count n)) acc) f
               = map (\<lambda>(a, n). (a, Count n)) (bump a acc)"
      using Some by (simp add: artist_step_def obj_bump_plain)
    then show ?thesis
      using Cons.IH [of "bump a acc"] Cons.prems Some by (simp add: count_step_def)
  qed
qed

lemma tally_artists_plain:
  assumes "\<forall>f \<in> set fs. \<forall>a. artist_key f = Some a \<longrightarrow> \<not> is_proto_member a"
  shows "tally_artists fs = map (\<lambda>(a, n). (a, Count n)) (tally artist_key fs)"
  using foldl_artist_step_plain [OF assms, of "[]"] by (simp add: tally_artists_def tally_def)

lemma insort_key_map:
  "insort_key f (g x) (map g xs) = map g (insort_key (\<lambda>y. f (g y)) x xs)"
  by (induction xs) auto

lemma sort_key_map: "sort_key f (map g xs) = map g (sort_key (\<lambda>y. f (g y)) xs)"
  by (induction xs) (auto simp: insort_key_map)

lemma object_entries_map:
  "object_entries idx (map (\<lambda>(a, n). (a, h n)) kvs)
   = map (\<lambda>(a, n). (a, h n)) (object_entries idx kvs)"
  by (simp add: object_entries_def filter_map sort_key_map comp_def case_prod_unfold)

lemma sort_tallies_counts:
  "sort_tallies (map (\<lambda>(a, n). (a, Count n)) es)
   = Sorted (map (\<lambda>(a, n). (a, Count n)) (sort_key (\<lambda>(a, c). - int c) es))"
proof -
  have "list_all (\<lambda>e. is_count (snd e)) (map (\<lambda>(a, n). (a, Count n)) es)"
    by (simp add: list_all_iff is_count_def case_prod_unfold)
  then show ?thesis
    by (simp add: sort_tallies_def sort_key_map count_of_def case_prod_unfold)
qed

lemma artist_fallback_plain:
  assumes "\<forall>f \<in> set (getFilteredFiles files sel).
             \<forall>a. artist_key f = Some a \<longrightarrow> \<not> is_proto_member a"
  shows "artist_fallback files sel
         = Sorted (map (\<lambda>(a, n). (a, Count n)) (artist_ranking_plain files sel))"
  by (simp add: artist_fallback_def artist_ranking_plain_def tally_artists_plain [OF assms]
      object_entries_map sort_tallies_counts take_map)

text \<open>What the ranking on a plain map gives: the listing that C8 describes.\<close>

lemma artist_ranking_plain_facts:
  "length (artist_ranking_plain files sel) \<le> 20
   \<and> distinct (map fst (artist_ranking_plain files sel))
   \<and> (\<forall>(a, c) \<in> set (artist_ranking_plain files sel).
         a \<noteq> [] \<and> 0 < c
         \<and> c = length (filter (\<lambda>f. artist f = Some a) (getFilteredFiles files sel)))
   \<and> sorted_wrt (\<lambda>x y. snd y \<le> snd x) (artist_ranking_plain files sel)
   \<and> (\<forall>i j. i < length (artist_ranking_plain files sel) \<and> j < length (artist_ranking_plain files sel)
          \<and> snd (artist_ranking_plain files sel ! j) < snd (artist_ranking_plain files sel ! i)
          \<longrightarrow> i < j)
   \<and> (\<forall>a. a \<noteq> [] \<and> (\<exists>f \<in> set (getFilteredFiles files sel). artist f = Some a)
          \<and> a \<notin> fst ` set (artist_ranking_plain files sel)
          \<longrightarrow> length (artist_ranking_plain files sel) = 20
              \<and> (\<forall>(b, c) \<in> set (artist_ranking_plain files sel).
                    length (filter (\<lambda>f. artist f = Some a) (getFilteredFiles files sel)) \<le> c))"
proof -
  define FS where "FS = getFilteredFiles files sel"
  define T where "T = tally artist_key FS"
  define S where "S = sort_key (\<lambda>(a, c). - int c) (object_entries array_index T)"
  define R where "R = artist_ranking_plain files sel"
  have R: "R = take 20 S"
    by (simp add: R_def S_def T_def FS_def artist_ranking_plain_def)
  have setS: "set S = set T"
    by (simp add: S_def set_object_entries)
  have dS: "distinct (map fst S)"
  proof -
    have "distinct (map fst (object_entries array_index T))"
      by (simp add: T_def distinct_object_entries distinct_tally)
    then have "distinct (object_entries array_index T)"
      and "inj_on fst (set (object_entries array_index T))"
      by (simp_all add: distinct_map)
    then show ?thesis
      by (simp add: S_def distinct_map)
  qed
  have sS: "sorted_wrt (\<lambda>x y. snd y \<le> snd x) S"
    unfolding S_def by (rule sorted_desc_sort_key)
  have memT: "(a, c) \<in> set T \<longleftrightarrow>
      a \<noteq> [] \<and> 0 < c \<and> c = length (filter (\<lambda>f. artist f = Some a) FS)" for a c
  proof (cases "a = []")
    case True
    then show ?thesis
      by (auto simp: T_def tally_mem artist_key_Some)
  next
    case False
    then have "filter (\<lambda>f. artist_key f = Some a) FS = filter (\<lambda>f. artist f = Some a) FS"
      by (simp add: artist_key_Some)
    then show ?thesis
      using False by (simp add: T_def tally_mem)
  qed
  have c1: "length R \<le> 20"
    by (simp add: R)
  have c2: "distinct (map fst R)"
    using dS by (simp add: R take_map [symmetric] distinct_take)
  have c3: "\<forall>(a, c) \<in> set R. a \<noteq> [] \<and> 0 < c
              \<and> c = length (filter (\<lambda>f. artist f = Some a) FS)"
  proof -
    have "set R \<subseteq> set T"
      using setS set_take_subset [of 20 S] by (simp add: R)
    then show ?thesis
      using memT by blast
  qed
  have c4: "sorted_wrt (\<lambda>x y. snd y \<le> snd x) R"
    using sS by (simp add: R sorted_wrt_take)
  have c5: "\<forall>i j. i < length R \<and> j < length R \<and> snd (R ! j) < snd (R ! i) \<longrightarrow> i < j"
    using sorted_wrt_nth_strict [OF c4] by blast
  have c6: "\<forall>a. a \<noteq> [] \<and> (\<exists>f \<in> set FS. artist f = Some a) \<and> a \<notin> fst ` set R
          \<longrightarrow> length R = 20
              \<and> (\<forall>(b, c) \<in> set R. length (filter (\<lambda>f. artist f = Some a) FS) \<le> c)"
  proof (intro allI impI, elim conjE)
    fix a
    assume a: "a \<noteq> []" and ex: "\<exists>f \<in> set FS. artist f = Some a" and notin: "a \<notin> fst ` set R"
    define n where "n = length (filter (\<lambda>f. artist f = Some a) FS)"
    have "filter (\<lambda>f. artist f = Some a) FS \<noteq> []"
      using ex by (simp add: filter_empty_conv)
    then have "0 < n" by (simp add: n_def)
    then have "(a, n) \<in> set S"
      using a memT [of a n] setS by (simp add: n_def)
    moreover have "(a, n) \<notin> set (take 20 S)"
      using notin R by force
    ultimately have inD: "(a, n) \<in> set (drop 20 S)"
      using set_append [of "take 20 S" "drop 20 S"] by auto
    then have "20 < length S"
      by (cases "20 < length S") auto
    then have "length R = 20"
      by (simp add: R)
    moreover have "\<forall>(b, c) \<in> set R. n \<le> c"
      using take_drop_sorted [OF sS _ inD] by (auto simp: R)
    ultimately show "length R = 20
              \<and> (\<forall>(b, c) \<in> set R. length (filter (\<lambda>f. artist f = Some a) FS) \<le> c)"
      by (simp add: n_def)
  qed
  show ?thesis
    using c1 c2 c3 c4 c5 c6 unfolding R_def FS_def by blast
qed

text \<open>The bins of the duration chart for a selected genre, case by case.\<close>

lemma duration_bins_shown_cases:
  assumes "s \<noteq> []"
  shows "(per_genre_bins st s = None \<and> (duration_bins st = None \<or> duration_bins st = Some [])
            \<and> files \<noteq> None
          \<longrightarrow> duration_bins_shown st (Some s) files = duration_fallback files (Some s))
   \<and> (per_genre_bins st s = Some [] \<and> files \<noteq> None
          \<longrightarrow> duration_bins_shown st (Some s) files = duration_fallback files (Some s))
   \<and> (per_genre_bins st s = None \<and> duration_bins st = Some b \<and> b \<noteq> []
          \<longrightarrow> duration_bins_shown st (Some s) files = b)
   \<and> (per_genre_bins st s = Some b \<and> b \<noteq> []
          \<longrightarrow> duration_bins_shown st (Some s) files = b)
   \<and> (percentiles_shown st (Some s) = None
          \<longrightarrow> renderDurationDistribution st (Some s) files p
              = Returned (p\<lparr>durhist := Histogram
                  (by_count_desc (object_entries array_index
                     (duration_bins_shown st (Some s) files))) None\<rparr>))"
  using assms
  by (auto simp: duration_bins_shown_def truthy_str_def renderDurationDistribution_def Let_def)

section \<open>The claims\<close>

subsection \<open>C1\<close>

text \<open>
  C1. With the selection \<open>__all__\<close>, \<open>getFilteredFiles\<close> returns exactly the files whose
  genre field is present and not empty and none of whose delimiter-split, trimmed parts
  is "unknown" in any case; no returned file has a missing or an empty genre.
\<close>

theorem getFilteredFiles_all:
  "getFilteredFiles (Some fs) (Some ''__all__'') = filter default_view_spec fs
   \<and> (\<forall>f \<in> set (getFilteredFiles (Some fs) (Some ''__all__'')).
         genre f \<noteq> None \<and> genre f \<noteq> Some [])"
proof -
  have "filter default_keep fs = filter default_view_spec fs"
    by (rule filter_cong) (simp_all add: default_keep_spec)
  moreover have "genre f \<noteq> None \<and> genre f \<noteq> Some []" if "default_view_spec f" for f
    using that by (auto simp: default_view_spec_def split: option.splits)
  ultimately show ?thesis
    by (simp add: getFilteredFiles_def)
qed

theorem getFilteredFiles_all_witness:
  "getFilteredFiles
     (Some [\<lparr>genre = Some ''Rock'', artist = None, duration = None,
             date = None, mtime_epoch = None\<rparr>,
      \<lparr>genre = Some ''Unknown'', artist = None, duration = None,
       date = None, mtime_epoch = None\<rparr>,
      \<lparr>genre = Some [], artist = None, duration = None,
       date = None, mtime_epoch = None\<rparr>,
      \<lparr>genre = None, artist = None, duration = None,
       date = None, mtime_epoch = None\<rparr>,
      \<lparr>genre = Some ''Pop; unKNOWN'', artist = None, duration = None,
       date = None, mtime_epoch = None\<rparr>])
     (Some ''__all__'')
   = [\<lparr>genre = Some ''Rock'', artist = None, duration = None,
       date = None, mtime_epoch = None\<rparr>]"
  (is "getFilteredFiles (Some ?L) _ = ?R")
proof -
  have "getFilteredFiles (Some ?L) (Some ''__all__'') = filter default_view_spec ?L"
    using getFilteredFiles_all [of ?L] by (rule conjunct1)
  also have "\<dots> = ?R"
    by code_simp
  finally show ?thesis .
qed

subsection \<open>C2\<close>

text \<open>
  C2. For a specific genre \<open>g\<close> (a selection that is neither empty nor \<open>__all__\<close>),
  \<open>getFilteredFiles\<close> returns exactly the files that \<open>fileHasGenre\<close> accepts for \<open>g\<close>, in
  the order of the file list (a subsequence of it); the exclusion of "unknown" does not
  apply: a file whose genre is \<open>Unknown\<close> is returned for the selection \<open>Unknown\<close>.
\<close>

theorem getFilteredFiles_genre:
  assumes "g \<noteq> []" and "g \<noteq> ''__all__''"
  shows "getFilteredFiles (Some fs) (Some g) = filter (\<lambda>f. fileHasGenre (Some f) g) fs
         \<and> subseq (getFilteredFiles (Some fs) (Some g)) fs
         \<and> (g = ''Unknown'' \<longrightarrow>
              (\<forall>f \<in> set fs. genre f = Some ''Unknown'' \<longrightarrow>
                 f \<in> set (getFilteredFiles (Some fs) (Some g))))"
proof -
  have eq: "getFilteredFiles (Some fs) (Some g) = filter (\<lambda>f. fileHasGenre (Some f) g) fs"
    using assms by (simp add: getFilteredFiles_def)
  have "fileHasGenre (Some f) ''Unknown''" if "genre f = Some ''Unknown''" for f
  proof -
    have "genre_parts ''Unknown'' = [''Unknown'']"
      by code_simp
    then show ?thesis
      using that by (simp add: fileHasGenre_def)
  qed
  then show ?thesis
    using eq by auto
qed

theorem getFilteredFiles_genre_witness:
  "''Unknown'' \<noteq> [] \<and> ''Unknown'' \<noteq> ''__all__''
   \<and> getFilteredFiles
     (Some [\<lparr>genre = Some ''Unknown'', artist = None, duration = None,
             date = None, mtime_epoch = None\<rparr>,
      \<lparr>genre = Some ''Rock'', artist = None, duration = None,
       date = None, mtime_epoch = None\<rparr>,
      \<lparr>genre = Some ''Pop; unknown'', artist = None, duration = None,
       date = None, mtime_epoch = None\<rparr>])
     (Some ''Unknown'')
   = [\<lparr>genre = Some ''Unknown'', artist = None, duration = None,
       date = None, mtime_epoch = None\<rparr>,
      \<lparr>genre = Some ''Pop; unknown'', artist = None, duration = None,
       date = None, mtime_epoch = None\<rparr>]"
  (is "_ \<and> _ \<and> getFilteredFiles (Some ?L) _ = ?R")
proof -
  have a: "''Unknown'' \<noteq> []" and b: "''Unknown'' \<noteq> ''__all__''"
    by simp_all
  have "getFilteredFiles (Some ?L) (Some ''Unknown'')
        = filter (\<lambda>f. fileHasGenre (Some f) ''Unknown'') ?L"
    using getFilteredFiles_genre [OF a b, of ?L] by (rule conjunct1)
  also have "\<dots> = ?R"
    by code_simp
  finally show ?thesis
    using a b by simp
qed

subsection \<open>C3\<close>

text \<open>
  C3. \<open>matches(file, genre)\<close> is true exactly when some part of the genre field of the
  file (split at every comma, semicolon, slash or pipe, trimmed, empty parts dropped) is
  equal to the whole target string when both are lower-cased; a file without a genre
  field matches no genre.
\<close>

theorem fileHasGenre_matches_spec:
  "fileHasGenre fl g = matches_spec fl g
   \<and> (\<forall>f. fl = Some f \<and> genre f = None \<longrightarrow> \<not> fileHasGenre fl g)"
  by (auto simp: fileHasGenre_def matches_spec_def genre_parts_spec_parts spec_parts_Nil
      split: option.splits)

theorem fileHasGenre_witness:
  "fileHasGenre (Some \<lparr>genre = Some ''Rock; Pop'', artist = None, duration = None,
       date = None, mtime_epoch = None\<rparr>) ''pop''
   \<and> \<not> fileHasGenre (Some \<lparr>genre = Some ''Rock'', artist = None, duration = None,
       date = None, mtime_epoch = None\<rparr>) ''rock, jazz''
   \<and> \<not> fileHasGenre (Some \<lparr>genre = None, artist = None, duration = None,
       date = None, mtime_epoch = None\<rparr>) ''rock''"
  (is "fileHasGenre (Some ?f1) _ \<and> \<not> fileHasGenre (Some ?f2) _ \<and> \<not> fileHasGenre (Some ?f3) _")
proof -
  have "matches_spec (Some ?f1) ''pop''"
    by code_simp
  then have "fileHasGenre (Some ?f1) ''pop''"
    using fileHasGenre_matches_spec [of "Some ?f1" "''pop''"] by blast
  moreover have "\<not> matches_spec (Some ?f2) ''rock, jazz''"
    by code_simp
  then have "\<not> fileHasGenre (Some ?f2) ''rock, jazz''"
    using fileHasGenre_matches_spec [of "Some ?f2" "''rock, jazz''"] by blast
  moreover have "genre ?f3 = None"
    by simp
  then have "\<not> fileHasGenre (Some ?f3) ''rock''"
    using fileHasGenre_matches_spec [of "Some ?f3" "''rock''"] by blast
  ultimately show ?thesis
    by blast
qed

subsection \<open>C4\<close>

text \<open>
  C4 as the specification states it fails for a file without a date whose
  \<open>mtime_epoch\<close> is \<open>0\<close>: the specification derives the year 1970 from it, while
  \<open>getYearFromFile\<close> passes over the falsy \<open>0\<close> and returns \<open>null\<close>.
\<close>

theorem getYearFromFile_counterexample:
  "getYearFromFile utc (Some \<lparr>genre = Some ''Rock'', artist = None, duration = None,
       date = None, mtime_epoch = Some 0\<rparr>)
     \<noteq> yearOf_spec utc \<lparr>genre = Some ''Rock'', artist = None, duration = None,
       date = None, mtime_epoch = Some 0\<rparr>
   \<and> getYearFromFile utc (Some \<lparr>genre = Some ''Rock'', artist = None, duration = None,
       date = None, mtime_epoch = Some 0\<rparr>)
     = None
   \<and> yearOf_spec utc \<lparr>genre = Some ''Rock'', artist = None, duration = None,
       date = None, mtime_epoch = Some 0\<rparr>
     = Some (Num 1970)"
  by (simp add: getYearFromFile_def date_year_def yearOf_spec_def getFullYear_def new_Date_def
      YearFromTime_def Day_def msPerDay_def DayFromYear_def utc_def)

text \<open>
  C4, amended. \<open>getYearFromFile\<close> returns the first 4-digit sequence beginning with "19"
  or "20" of the date text (a number from 1900 to 2099) if there is one; otherwise, if
  \<open>mtime_epoch\<close> is present and not \<open>0\<close>, the calendar year of \<open>mtime_epoch\<close> seconds
  after the epoch in the local time zone; otherwise \<open>null\<close>. The year histogram lists
  the years in rising order and counts under a year exactly the files with that year:
  a file without a year is in no entry, and no entry has the year \<open>0\<close>.
\<close>

theorem getYearFromFile_priority:
  "getYearFromFile tz (Some f) =
     (case (case date f of None \<Rightarrow> None | Some s \<Rightarrow> spec_year_token s) of
        Some w \<Rightarrow> Some (Num (to_number w))
      | None \<Rightarrow>
          (case mtime_epoch f of
             None \<Rightarrow> None
           | Some t \<Rightarrow> if t = 0 then None else Some (getFullYear tz (new_Date (t * 1000)))))
   \<and> (\<forall>w. spec_year_token s = Some w \<longrightarrow>
          is_year_token w \<and> 1900 \<le> to_number w \<and> to_number w \<le> 2099)
   \<and> (\<bar>t * 1000\<bar> \<le> 8640000000000000 \<longrightarrow>
          getFullYear tz (new_Date (t * 1000)) = Num (YearFromTime (t * 1000 + tz (t * 1000))))
   \<and> sorted (map fst (year_histogram tz files sel))
   \<and> ((y, n) \<in> set (year_histogram tz files sel) \<longleftrightarrow>
          y \<noteq> 0 \<and> 0 < n
          \<and> n = length (filter (\<lambda>f. getYearFromFile tz (Some f) = Some (Num y))
                                (getFilteredFiles files sel)))
   \<and> sum_list (map snd (year_histogram tz files sel))
       = length (filter (\<lambda>f. \<exists>y. y \<noteq> 0 \<and> getYearFromFile tz (Some f) = Some (Num y))
                        (getFilteredFiles files sel))"
proof -
  define FS where "FS = getFilteredFiles files sel"
  define T where "T = tally (hist_key tz) FS"
  have H: "year_histogram tz files sel = sort_key fst (object_entries year_index T)"
    by (simp add: year_histogram_def T_def FS_def)
  have c1: "getYearFromFile tz (Some f) =
     (case (case date f of None \<Rightarrow> None | Some s \<Rightarrow> spec_year_token s) of
        Some w \<Rightarrow> Some (Num (to_number w))
      | None \<Rightarrow>
          (case mtime_epoch f of
             None \<Rightarrow> None
           | Some t \<Rightarrow> if t = 0 then None else Some (getFullYear tz (new_Date (t * 1000)))))"
    by (auto simp: getYearFromFile_def date_year_spec split: option.splits)
  have c2: "\<forall>w. spec_year_token s = Some w \<longrightarrow>
          is_year_token w \<and> 1900 \<le> to_number w \<and> to_number w \<le> 2099"
    using spec_year_token_is_token year_token_range by blast
  have c3: "\<bar>t * 1000\<bar> \<le> 8640000000000000 \<longrightarrow>
          getFullYear tz (new_Date (t * 1000)) = Num (YearFromTime (t * 1000 + tz (t * 1000)))"
    by (simp add: getFullYear_in_range)
  have c4: "sorted (map fst (year_histogram tz files sel))"
    unfolding H by (rule sorted_entries_by_year(1)) (simp add: T_def distinct_tally)
  have setH: "set (year_histogram tz files sel) = set T"
    unfolding H by (rule sorted_entries_by_year(3)) (simp add: T_def distinct_tally)
  have c5: "(y, n) \<in> set (year_histogram tz files sel) \<longleftrightarrow>
          y \<noteq> 0 \<and> 0 < n
          \<and> n = length (filter (\<lambda>f. getYearFromFile tz (Some f) = Some (Num y)) FS)"
  proof (cases "y = 0")
    case True
    then show ?thesis
      by (auto simp: setH T_def tally_mem hist_key_Some)
  next
    case False
    then have "filter (\<lambda>f. hist_key tz f = Some y) FS
               = filter (\<lambda>f. getYearFromFile tz (Some f) = Some (Num y)) FS"
      by (simp add: hist_key_Some)
    then show ?thesis
      using False by (simp add: setH T_def tally_mem)
  qed
  have c6: "sum_list (map snd (year_histogram tz files sel))
       = length (filter (\<lambda>f. \<exists>y. y \<noteq> 0 \<and> getYearFromFile tz (Some f) = Some (Num y)) FS)"
  proof -
    have "sum_list (map snd (year_histogram tz files sel)) = sum_list (map snd T)"
      unfolding H by (rule sum_list_entries)
    moreover have "(hist_key tz f \<noteq> None)
        = (\<exists>y. y \<noteq> 0 \<and> getYearFromFile tz (Some f) = Some (Num y))" for f
      using hist_key_Some [of tz f] by (cases "hist_key tz f") auto
    ultimately show ?thesis
      by (simp add: T_def sum_tally)
  qed
  show ?thesis
    using c1 c2 c3 c4 c5 c6 unfolding FS_def by blast
qed

theorem getYearFromFile_priority_witness:
  "getYearFromFile utc (Some \<lparr>genre = Some ''Rock'', artist = None, duration = None,
                              date = Some ''Released 1998-04-01'', mtime_epoch = Some 1000000000\<rparr>)
     = Some (Num 1998)
   \<and> getYearFromFile utc (Some \<lparr>genre = Some ''Rock'', artist = None, duration = None,
                                     date = Some ''n/a'', mtime_epoch = Some 1000000000\<rparr>)
     = Some (Num 2001)
   \<and> getYearFromFile utc (Some \<lparr>genre = Some ''Rock'', artist = None, duration = None,
                                     date = None, mtime_epoch = None\<rparr>)
     = None
   \<and> spec_year_token ''Released 1998-04-01'' = Some ''1998''
   \<and> 1900 \<le> to_number ''1998'' \<and> to_number ''1998'' \<le> 2099"
  (is "getYearFromFile ?tz (Some ?f1) = _ \<and> getYearFromFile _ (Some ?f2) = _
       \<and> getYearFromFile _ (Some ?f3) = _ \<and> _")
proof -
  note p = getYearFromFile_priority [where tz = ?tz and s = "''Released 1998-04-01''"]
  have "getYearFromFile ?tz (Some ?f1) = Some (Num 1998)"
    using p [where f = ?f1, THEN conjunct1] by (rule trans) code_simp
  moreover have "getYearFromFile ?tz (Some ?f2) = Some (Num 2001)"
    using p [where f = ?f2, THEN conjunct1] by (rule trans) code_simp
  moreover have "getYearFromFile ?tz (Some ?f3) = None"
    using p [where f = ?f3, THEN conjunct1] by (rule trans) code_simp
  moreover have t: "spec_year_token ''Released 1998-04-01'' = Some ''1998''"
    by code_simp
  moreover have "1900 \<le> to_number ''1998'' \<and> to_number ''1998'' \<le> 2099"
    using p [where f = ?f1] t by blast
  ultimately show ?thesis
    by blast
qed

subsection \<open>C5\<close>

text \<open>
  C5 as the specification states it fails for a duration with a fraction of a second:
  119.5 seconds are less than two minutes, in the range of \<open><2m\<close>, but the code rounds the
  duration to 120 first and counts the file under \<open>2-4m\<close>.
\<close>

theorem duration_fallback_counterexample:
  "duration_label (rounded_duration \<lparr>genre = Some ''Rock'', artist = None,
       duration = Some (239 / 2), date = None, mtime_epoch = None\<rparr>)
     \<noteq> spec_duration_label (239 / 2)
   \<and> spec_duration_label (239 / 2) = ''<2m''
   \<and> duration_fallback
     (Some [\<lparr>genre = Some ''Rock'', artist = None,
             duration = Some (239 / 2), date = None, mtime_epoch = None\<rparr>])
     None
     = [(''2-4m'', 1)]"
  by code_simp

text \<open>
  C5, amended. The fallback binning rounds the duration of each file of the filtered
  subset to the nearest whole second, a half upwards (\<open>0\<close> when the field is missing),
  and gives the file exactly one of the five labels by the rounded value: \<open><2m\<close> below
  120 (a duration below 119.5), \<open>2-4m\<close> for 120 to 239 (from 119.5 and below 239.5),
  \<open>4-6m\<close> for 240 to 359 (from 239.5 and below 359.5), \<open>6-12m\<close> for 360 to 719 (from
  359.5 and below 719.5) and \<open>12m+\<close> from 720 (from 719.5). A whole number of seconds is
  its own rounded value, so 120 falls in \<open>2-4m\<close> and 720 in \<open>12m+\<close>. A label is in the
  result exactly when its count is positive, and the counts add up to the number of
  files.
\<close>

theorem duration_fallback_bins:
  "duration_label d \<in> set [''<2m'', ''2-4m'', ''4-6m'', ''6-12m'', ''12m+'']
   \<and> (duration_label d = ''<2m'') = (d < 120)
   \<and> (duration_label d = ''2-4m'') = (120 \<le> d \<and> d \<le> 239)
   \<and> (duration_label d = ''4-6m'') = (240 \<le> d \<and> d \<le> 359)
   \<and> (duration_label d = ''6-12m'') = (360 \<le> d \<and> d \<le> 719)
   \<and> (duration_label d = ''12m+'') = (720 \<le> d)
   \<and> duration_label 120 = ''2-4m'' \<and> duration_label 720 = ''12m+''
   \<and> (duration_label (Math_round x) = ''<2m'') = (x < 239 / 2)
   \<and> (duration_label (Math_round x) = ''2-4m'') = (239 / 2 \<le> x \<and> x < 479 / 2)
   \<and> (duration_label (Math_round x) = ''4-6m'') = (479 / 2 \<le> x \<and> x < 719 / 2)
   \<and> (duration_label (Math_round x) = ''6-12m'') = (719 / 2 \<le> x \<and> x < 1439 / 2)
   \<and> (duration_label (Math_round x) = ''12m+'') = (1439 / 2 \<le> x)
   \<and> Math_round (of_int k) = k
   \<and> (duration f = Some x \<longrightarrow> rounded_duration f = Math_round x)
   \<and> (duration f = None \<longrightarrow> rounded_duration f = 0)
   \<and> distinct (map fst (duration_fallback files sel))
   \<and> ((l, n) \<in> set (duration_fallback files sel) \<longleftrightarrow>
        0 < n \<and> n = length (filter (\<lambda>f. duration_label (rounded_duration f) = l)
                              (getFilteredFiles files sel)))
   \<and> sum_list (map snd (duration_fallback files sel)) = length (getFilteredFiles files sel)"
proof -
  have "duration f = None \<longrightarrow> rounded_duration f = 0"
    by (simp add: rounded_duration_def Math_round_def floor_eq_iff)
  moreover have "duration f = Some x \<longrightarrow> rounded_duration f = Math_round x"
    by (simp add: rounded_duration_def)
  moreover have "distinct (map fst (duration_fallback files sel))"
    by (simp add: duration_fallback_def distinct_tally)
  moreover have "(l, n) \<in> set (duration_fallback files sel) \<longleftrightarrow>
        0 < n \<and> n = length (filter (\<lambda>f. duration_label (rounded_duration f) = l)
                              (getFilteredFiles files sel))"
    by (simp add: duration_fallback_def tally_mem)
  moreover have "sum_list (map snd (duration_fallback files sel))
                 = length (getFilteredFiles files sel)"
    by (simp add: duration_fallback_def sum_tally)
  moreover have "duration_label 120 = ''2-4m''" "duration_label 720 = ''12m+''"
    by (simp_all add: duration_label_def)
  ultimately show ?thesis
    using duration_label_cases [of d] duration_label_in [of d] duration_label_round [of x]
      Math_round_of_int [of k]
    by blast
qed

theorem duration_fallback_bins_witness:
  "duration_fallback
     (Some [\<lparr>genre = Some ''Rock'', artist = None, duration = Some 120,
             date = None, mtime_epoch = None\<rparr>,
      \<lparr>genre = Some ''Rock'', artist = None, duration = Some 720,
       date = None, mtime_epoch = None\<rparr>,
      \<lparr>genre = Some ''Rock'', artist = None, duration = None,
       date = None, mtime_epoch = None\<rparr>,
      \<lparr>genre = Some ''Rock'', artist = None, duration = Some (239 / 2),
       date = None, mtime_epoch = None\<rparr>])
     None
   = [(''2-4m'', 2), (''12m+'', 1), (''<2m'', 1)]
   \<and> (''2-4m'', 2) \<in> set (duration_fallback
     (Some [\<lparr>genre = Some ''Rock'', artist = None, duration = Some 120,
             date = None, mtime_epoch = None\<rparr>,
      \<lparr>genre = Some ''Rock'', artist = None, duration = Some 720,
       date = None, mtime_epoch = None\<rparr>,
      \<lparr>genre = Some ''Rock'', artist = None, duration = None,
       date = None, mtime_epoch = None\<rparr>,
      \<lparr>genre = Some ''Rock'', artist = None, duration = Some (239 / 2),
       date = None, mtime_epoch = None\<rparr>])
     None)
   \<and> rounded_duration \<lparr>genre = Some ''Rock'', artist = None, duration = Some (239 / 2),
       date = None, mtime_epoch = None\<rparr> = 120
   \<and> duration_label (Math_round (239 / 2)) = ''2-4m''"
  (is "duration_fallback (Some ?L) None = ?R \<and> _ \<and> rounded_duration ?f = _ \<and> _")
proof -
  note t = duration_fallback_bins [where files = "Some ?L" and sel = None and l = "''2-4m''"
      and n = 2 and f = ?f and x = "239 / 2"]
  have e: "duration_fallback (Some ?L) None = ?R"
    by code_simp
  have "0 < (2::nat) \<and> (2::nat) = length (filter (\<lambda>f. duration_label (rounded_duration f) = ''2-4m'')
          (getFilteredFiles (Some ?L) None))"
    by code_simp
  then have m: "(''2-4m'', 2) \<in> set (duration_fallback (Some ?L) None)"
    using t by blast
  have "duration ?f = Some (239 / 2)"
    by simp
  then have "rounded_duration ?f = Math_round (239 / 2)"
    using t by blast
  moreover have "Math_round (239 / 2) = 120"
    by code_simp
  ultimately have r: "rounded_duration ?f = 120"
    by simp
  have "(239::rat) / 2 \<le> 239 / 2 \<and> (239::rat) / 2 < 479 / 2"
    by simp
  then have "duration_label (Math_round (239 / 2)) = ''2-4m''"
    using t by blast
  then show ?thesis
    using e m r by blast
qed

subsection \<open>C6\<close>

text \<open>
  C6 (whenever the precomputed bins of the selected genre are absent, the duration
  statistic shown is computed from the filtered files) does not hold of the code. The
  variable \<^verbatim>\<open>bins\<close> starts as the global \<^verbatim>\<open>duration_bins\<close>, and the fallback from the
  files runs only when \<^verbatim>\<open>bins\<close> is empty: with the bins of the genre absent and global
  bins present and not empty, the chart of the genre shows the global bins.
\<close>

theorem missing_per_genre_bins_shows_global:
  assumes "s \<noteq> []" and "per_genre_bins st s = None"
    and "duration_bins st = Some b" and "b \<noteq> []"
  shows "duration_bins_shown st (Some s) files = b
   \<and> renderDurationDistribution st (Some s) files p
       = Returned (p\<lparr>durhist := Histogram (by_count_desc (object_entries array_index b))
                                         (percentiles_shown st (Some s))\<rparr>)"
proof -
  have sh: "duration_bins_shown st (Some s) files = b"
    using assms by (simp add: duration_bins_shown_def truthy_str_def)
  have "length (by_count_desc (object_entries array_index b)) = length b"
    by (simp add: by_count_desc_def length_object_entries)
  then have "by_count_desc (object_entries array_index b) \<noteq> []"
    using assms(4) by auto
  then have "renderDurationDistribution st (Some s) files p
       = Returned (p\<lparr>durhist := Histogram (by_count_desc (object_entries array_index b))
                                         (percentiles_shown st (Some s))\<rparr>)"
    by (cases "percentiles_shown st (Some s)")
      (simp_all add: renderDurationDistribution_def sh Let_def)
  then show ?thesis
    using sh by simp
qed

theorem missing_per_genre_bins_shows_global_witness:
  "''Rock'' \<noteq> []
   \<and> per_genre_bins
     \<lparr>summary = None, durations = None, genre_counts = None, genre_percentages = None,
      top_genres = None, artist_counts = None, top_artists_per_genre = None,
      duration_bins = Some [(''<2m'', 7)], duration_percentiles = None,
      per_genre_duration_bins = Some [(''Jazz'', [(''2-4m'', 3)])],
      per_genre_duration_stats = None\<rparr> ''Rock'' = None
   \<and> duration_bins_shown
     \<lparr>summary = None, durations = None, genre_counts = None, genre_percentages = None,
      top_genres = None, artist_counts = None, top_artists_per_genre = None,
      duration_bins = Some [(''<2m'', 7)], duration_percentiles = None,
      per_genre_duration_bins = Some [(''Jazz'', [(''2-4m'', 3)])],
      per_genre_duration_stats = None\<rparr>
     (Some ''Rock'')
     (Some [\<lparr>genre = Some ''Rock'', artist = None, duration = Some 300, date = None,
             mtime_epoch = None\<rparr>])
     = [(''<2m'', 7)]
   \<and> duration_fallback
     (Some [\<lparr>genre = Some ''Rock'', artist = None, duration = Some 300, date = None,
             mtime_epoch = None\<rparr>])
     (Some ''Rock'')
     = [(''4-6m'', 1)]"
  (is "_ \<and> per_genre_bins ?st _ = _ \<and> duration_bins_shown _ _ (Some ?L) = ?R \<and> ?F")
proof -
  have a: "''Rock'' \<noteq> []"
    by simp
  have h: "per_genre_bins ?st ''Rock'' = None"
    by code_simp
  have d: "duration_bins ?st = Some ?R" and n: "?R \<noteq> []"
    by simp_all
  have "duration_bins_shown ?st (Some ''Rock'') (Some ?L) = ?R"
    using missing_per_genre_bins_shows_global [OF a h d n, of "Some ?L"] by blast
  moreover have ?F
    by code_simp
  ultimately show ?thesis
    using a h by blast
qed

subsection \<open>C7\<close>

text \<open>
  C7 (a missing top-level key of the statistics is never fatal and never affects the
  other charts) does not hold of the code. Without \<^verbatim>\<open>genre_counts\<close> the start of the
  page throws in \<^verbatim>\<open>populateGenreSelect\<close> before anything is drawn, and
  \<^verbatim>\<open>applyGenreFilter\<close> throws in \<^verbatim>\<open>renderSummary\<close> or \<^verbatim>\<open>renderGenreBar\<close>, so that the
  pie, artist, duration, year, timeline and radar charts are left as they were.
\<close>

theorem missing_genre_counts_aborts:
  assumes "genre_counts st = None"
  shows "main tz st files = Thrown TypeError initial_page
   \<and> (\<exists>p'. applyGenreFilter tz st files sel p = Thrown TypeError p'
          \<and> genrepie p' = genrepie p \<and> artistchart p' = artistchart p
          \<and> durhist p' = durhist p \<and> yearhist p' = yearhist p
          \<and> timeline p' = timeline p \<and> genreradar p' = genreradar p)"
proof -
  have m: "main tz st files = Thrown TypeError initial_page"
    using assms by (simp add: main_def populateGenreSelect_def and_then_def)
  have a: "\<exists>p'. applyGenreFilter tz st files sel p = Thrown TypeError p'
          \<and> genrepie p' = genrepie p \<and> artistchart p' = artistchart p
          \<and> durhist p' = durhist p \<and> yearhist p' = yearhist p
          \<and> timeline p' = timeline p \<and> genreradar p' = genreradar p"
  proof (cases "summary st")
    case None
    then show ?thesis
      by (simp add: applyGenreFilter_def renderSummary_def and_then_def Let_def)
  next
    case (Some sm)
    then show ?thesis
      using assms
      by (cases "duration_bins st")
        (simp_all add: applyGenreFilter_def renderSummary_def renderDurationBins_def
          renderGenreBar_def and_then_def Let_def)
  qed
  show ?thesis
    using m a by blast
qed

theorem missing_genre_counts_aborts_witness:
  "genre_counts
     \<lparr>summary = Some [(''total_files_found'', 3), (''files_scanned'', 3)],
      durations = None, genre_counts = None,
      genre_percentages = Some [(''Rock'', 1)], top_genres = Some [(''Rock'', 3)],
      artist_counts = Some [(''A'', 3)], top_artists_per_genre = None,
      duration_bins = Some [(''4-6m'', 3)], duration_percentiles = None,
      per_genre_duration_bins = None, per_genre_duration_stats = None\<rparr> = None
   \<and> main utc
     \<lparr>summary = Some [(''total_files_found'', 3), (''files_scanned'', 3)],
      durations = None, genre_counts = None,
      genre_percentages = Some [(''Rock'', 1)], top_genres = Some [(''Rock'', 3)],
      artist_counts = Some [(''A'', 3)], top_artists_per_genre = None,
      duration_bins = Some [(''4-6m'', 3)], duration_percentiles = None,
      per_genre_duration_bins = None, per_genre_duration_stats = None\<rparr>
     (Some [\<lparr>genre = Some ''Rock'', artist = None, duration = Some 300, date = None,
             mtime_epoch = None\<rparr>])
     = Thrown TypeError initial_page
   \<and> applyGenreFilter utc
     \<lparr>summary = Some [(''total_files_found'', 3), (''files_scanned'', 3)],
      durations = None, genre_counts = None,
      genre_percentages = Some [(''Rock'', 1)], top_genres = Some [(''Rock'', 3)],
      artist_counts = Some [(''A'', 3)], top_artists_per_genre = None,
      duration_bins = Some [(''4-6m'', 3)], duration_percentiles = None,
      per_genre_duration_bins = None, per_genre_duration_stats = None\<rparr>
     (Some [\<lparr>genre = Some ''Rock'', artist = None, duration = Some 300, date = None,
             mtime_epoch = None\<rparr>])
     (Some ''Rock'') initial_page
     = Thrown TypeError
        (initial_page\<lparr>selectedGenre := Some ''Rock'', genre_select_value := ''Rock'',
           summarytext := Summary [(''total_files_found'', 3), (''files_scanned'', 3)]
                            None 0 (Some (''Rock'', 1)),
           duration_bins_box := Counts [(''4-6m'', 3)]\<rparr>)"
  (is "genre_counts ?st = None \<and> main ?tz _ (Some ?L) = _ \<and> ?A")
proof -
  have h: "genre_counts ?st = None"
    by simp
  have "main ?tz ?st (Some ?L) = Thrown TypeError initial_page"
    using missing_genre_counts_aborts [OF h, of ?tz "Some ?L"] by blast
  moreover have ?A
    by code_simp
  ultimately show ?thesis
    using h by blast
qed

subsection \<open>C8\<close>

text \<open>
  C8 (the fallback groups the files by their non-empty artist field, counts them, sorts
  by falling count and keeps 20) does not hold of the code for an artist named like a
  member of \<^verbatim>\<open>Object.prototype\<close>, because the counts are kept in a plain object: two
  files of the artist \<^verbatim>\<open>__proto__\<close> leave no entry at all, and two files of the artist
  \<^verbatim>\<open>constructor\<close> leave a string in place of the count 2. Counted on a map the artists
  would be listed as the claim says (\<open>artist_ranking_plain\<close>).
\<close>

theorem artist_fallback_proto_names:
  "artist_fallback
     (Some [\<lparr>genre = Some ''Rock'', artist = Some ''__proto__'', duration = None,
             date = None, mtime_epoch = None\<rparr>,
            \<lparr>genre = Some ''Rock'', artist = Some ''X'', duration = None,
             date = None, mtime_epoch = None\<rparr>,
            \<lparr>genre = Some ''Rock'', artist = Some ''__proto__'', duration = None,
             date = None, mtime_epoch = None\<rparr>])
     (Some ''Rock'')
     = Sorted [(''X'', Count 1)]
   \<and> artist_ranking_plain
     (Some [\<lparr>genre = Some ''Rock'', artist = Some ''__proto__'', duration = None,
             date = None, mtime_epoch = None\<rparr>,
            \<lparr>genre = Some ''Rock'', artist = Some ''X'', duration = None,
             date = None, mtime_epoch = None\<rparr>,
            \<lparr>genre = Some ''Rock'', artist = Some ''__proto__'', duration = None,
             date = None, mtime_epoch = None\<rparr>])
     (Some ''Rock'')
     = [(''__proto__'', 2), (''X'', 1)]
   \<and> artist_fallback
     (Some [\<lparr>genre = Some ''Rock'', artist = Some ''constructor'', duration = None,
             date = None, mtime_epoch = None\<rparr>,
            \<lparr>genre = Some ''Rock'', artist = Some ''constructor'', duration = None,
             date = None, mtime_epoch = None\<rparr>])
     (Some ''Rock'')
     = Sorted [(''constructor'', Text 2)]"
  by code_simp

subsection \<open>C9\<close>

text \<open>
  C9. The added-timeline counts the files of the filtered subset by the calendar year
  of \<open>mtime_epoch\<close>, with \<open>0\<close> in place of a missing \<open>mtime_epoch\<close>: such a file is
  counted in the year of the epoch (1970 in UTC, 1969 or 1970 in any time zone), it
  is neither dropped nor does it raise an error. The entries have distinct years in
  rising order. (A year is listed when it is not 0, as \<open>if (y)\<close> demands.)
\<close>

theorem added_timeline_by_year:
  "sorted (map fst (added_timeline tz files sel))
   \<and> distinct (map fst (added_timeline tz files sel))
   \<and> ((y, n) \<in> set (added_timeline tz files sel) \<longleftrightarrow>
          y \<noteq> 0 \<and> 0 < n
          \<and> n = length (filter (\<lambda>f. added_year tz f = Num y) (getFilteredFiles files sel)))
   \<and> (mtime_epoch f = None \<longrightarrow> added_year tz f = Num (YearFromTime (tz 0)))
   \<and> (\<bar>tz 0\<bar> \<le> msPerDay \<longrightarrow> YearFromTime (tz 0) = 1969 \<or> YearFromTime (tz 0) = 1970)
   \<and> (tz 0 = 0 \<longrightarrow> YearFromTime (tz 0) = 1970)
   \<and> (f \<in> set (getFilteredFiles files sel) \<and> mtime_epoch f = None \<and> \<bar>tz 0\<bar> \<le> msPerDay \<longrightarrow>
          (\<exists>n. (YearFromTime (tz 0), n) \<in> set (added_timeline tz files sel)
               \<and> length (filter (\<lambda>f. mtime_epoch f = None) (getFilteredFiles files sel)) \<le> n))"
proof -
  define FS where "FS = getFilteredFiles files sel"
  define T where "T = tally (timeline_key tz) FS"
  have E: "added_timeline tz files sel = sort_key fst (object_entries year_index T)"
    by (simp add: added_timeline_def T_def FS_def)
  have dT: "distinct (map fst T)"
    by (simp add: T_def distinct_tally)
  have c1: "sorted (map fst (added_timeline tz files sel))"
    unfolding E using dT by (rule sorted_entries_by_year(1))
  have c2: "distinct (map fst (added_timeline tz files sel))"
    unfolding E using dT by (rule sorted_entries_by_year(2))
  have setE: "set (added_timeline tz files sel) = set T"
    unfolding E using dT by (rule sorted_entries_by_year(3))
  have c3: "(y, n) \<in> set (added_timeline tz files sel) \<longleftrightarrow>
          y \<noteq> 0 \<and> 0 < n \<and> n = length (filter (\<lambda>f. added_year tz f = Num y) FS)" for y n
  proof (cases "y = 0")
    case True
    then show ?thesis
      by (auto simp: setE T_def tally_mem timeline_key_Some)
  next
    case False
    then have "filter (\<lambda>f. timeline_key tz f = Some y) FS
               = filter (\<lambda>f. added_year tz f = Num y) FS"
      by (simp add: timeline_key_Some)
    then show ?thesis
      using False by (simp add: setE T_def tally_mem)
  qed
  have c4: "mtime_epoch f = None \<longrightarrow> added_year tz f = Num (YearFromTime (tz 0))" for f
    by (simp add: added_year_def getFullYear_def new_Date_def)
  have c5: "\<bar>tz 0\<bar> \<le> msPerDay \<longrightarrow> YearFromTime (tz 0) = 1969 \<or> YearFromTime (tz 0) = 1970"
    using epoch_year_range by blast
  have c6: "tz 0 = 0 \<longrightarrow> YearFromTime (tz 0) = 1970"
    by (simp add: YearFromTime_def Day_def msPerDay_def DayFromYear_def)
  have c7: "f \<in> set FS \<and> mtime_epoch f = None \<and> \<bar>tz 0\<bar> \<le> msPerDay \<longrightarrow>
          (\<exists>n. (YearFromTime (tz 0), n) \<in> set (added_timeline tz files sel)
               \<and> length (filter (\<lambda>f. mtime_epoch f = None) FS) \<le> n)"
  proof (intro impI, elim conjE)
    assume f: "f \<in> set FS" and m: "mtime_epoch f = None" and z: "\<bar>tz 0\<bar> \<le> msPerDay"
    define e where "e = YearFromTime (tz 0)"
    define n where "n = length (filter (\<lambda>f. added_year tz f = Num e) FS)"
    have ne: "e \<noteq> 0"
      using c5 z by (auto simp: e_def)
    have le: "length (filter (\<lambda>f. mtime_epoch f = None) FS) \<le> n"
      unfolding n_def
    proof (rule length_filter_mono)
      fix g assume "g \<in> set FS" and "mtime_epoch g = None"
      then show "added_year tz g = Num e"
        using c4 [of g] by (simp add: e_def)
    qed
    have "filter (\<lambda>f. mtime_epoch f = None) FS \<noteq> []"
      using f m by (auto simp: filter_empty_conv)
    then have "0 < n"
      using le by (cases "filter (\<lambda>f. mtime_epoch f = None) FS") auto
    then have "(e, n) \<in> set (added_timeline tz files sel)"
      using ne c3 [of e n] by (simp add: n_def)
    then show "\<exists>n. (YearFromTime (tz 0), n) \<in> set (added_timeline tz files sel)
               \<and> length (filter (\<lambda>f. mtime_epoch f = None) FS) \<le> n"
      using le unfolding e_def by blast
  qed
  show ?thesis
    using c1 c2 c3 c4 c5 c6 c7 unfolding FS_def by blast
qed

theorem added_timeline_by_year_witness:
  "added_timeline utc
     (Some [\<lparr>genre = Some ''Rock'', artist = None, duration = None,
             date = None, mtime_epoch = None\<rparr>,
      \<lparr>genre = Some ''Rock'', artist = None, duration = None,
       date = None, mtime_epoch = Some 1700000000\<rparr>,
      \<lparr>genre = Some ''Rock'', artist = None, duration = None,
       date = None, mtime_epoch = Some 1000000000\<rparr>])
     None
   = [(1970, 1), (2001, 1), (2023, 1)]
   \<and> (\<exists>n. (YearFromTime 0, n) \<in> set (added_timeline utc
     (Some [\<lparr>genre = Some ''Rock'', artist = None, duration = None,
             date = None, mtime_epoch = None\<rparr>,
      \<lparr>genre = Some ''Rock'', artist = None, duration = None,
       date = None, mtime_epoch = Some 1700000000\<rparr>,
      \<lparr>genre = Some ''Rock'', artist = None, duration = None,
       date = None, mtime_epoch = Some 1000000000\<rparr>])
     None))"
  (is "added_timeline ?tz (Some ?L) None = ?R \<and> _")
proof -
  have e: "added_timeline ?tz (Some ?L) None = ?R"
    by code_simp
  have "hd ?L \<in> set (getFilteredFiles (Some ?L) None)"
    by code_simp
  moreover have "mtime_epoch (hd ?L) = None" and "\<bar>?tz 0\<bar> \<le> msPerDay"
    by (simp_all add: msPerDay_def utc_def)
  ultimately have "\<exists>n. (YearFromTime (?tz 0), n) \<in> set (added_timeline ?tz (Some ?L) None)"
    using added_timeline_by_year [where tz = ?tz and files = "Some ?L" and sel = None
        and f = "hd ?L"]
    by blast
  then show ?thesis
    using e by (simp add: utc_def)
qed

subsection \<open>C10\<close>

text \<open>
  C10. A falsy selection (\<open>null\<close> or \<open>undefined\<close>, here \<open>None\<close>, or the empty string) is
  treated like \<open>__all__\<close>: the result is the default view, the files whose genre field is
  present and not empty and has no part "unknown" in any case. The empty string is not
  looked up as a genre (which would match no file).
\<close>

theorem getFilteredFiles_falsy:
  "getFilteredFiles (Some fs) None = filter default_view_spec fs
   \<and> getFilteredFiles (Some fs) (Some []) = filter default_view_spec fs
   \<and> getFilteredFiles files None = getFilteredFiles files (Some ''__all__'')
   \<and> getFilteredFiles files (Some []) = getFilteredFiles files (Some ''__all__'')
   \<and> \<not> fileHasGenre fl []"
proof -
  have "filter default_keep fs = filter default_view_spec fs"
    by (rule filter_cong) (simp_all add: default_keep_spec)
  moreover have "\<not> fileHasGenre fl []"
    by (auto simp: fileHasGenre_def genre_parts_def list_ex_iff toLowerCase_def
        split: option.splits)
  ultimately show ?thesis
    by (simp add: getFilteredFiles_def split: option.splits)
qed

theorem getFilteredFiles_falsy_witness:
  "getFilteredFiles
     (Some [\<lparr>genre = Some ''Rock'', artist = None, duration = None,
             date = None, mtime_epoch = None\<rparr>,
            \<lparr>genre = Some ''Unknown'', artist = None, duration = None,
             date = None, mtime_epoch = None\<rparr>,
            \<lparr>genre = None, artist = None, duration = None,
             date = None, mtime_epoch = None\<rparr>,
            \<lparr>genre = Some ''Jazz / unknown'', artist = None, duration = None,
             date = None, mtime_epoch = None\<rparr>])
     None
   = [\<lparr>genre = Some ''Rock'', artist = None, duration = None,
       date = None, mtime_epoch = None\<rparr>]
   \<and> getFilteredFiles
     (Some [\<lparr>genre = Some ''Rock'', artist = None, duration = None,
             date = None, mtime_epoch = None\<rparr>,
            \<lparr>genre = Some ''Unknown'', artist = None, duration = None,
             date = None, mtime_epoch = None\<rparr>,
            \<lparr>genre = None, artist = None, duration = None,
             date = None, mtime_epoch = None\<rparr>,
            \<lparr>genre = Some ''Jazz / unknown'', artist = None, duration = None,
             date = None, mtime_epoch = None\<rparr>])
     (Some [])
   = [\<lparr>genre = Some ''Rock'', artist = None, duration = None,
       date = None, mtime_epoch = None\<rparr>]"
  (is "getFilteredFiles (Some ?L) None = ?R \<and> _")
proof -
  have v: "filter default_view_spec ?L = ?R"
    by code_simp
  have "getFilteredFiles (Some ?L) None = filter default_view_spec ?L"
    and "getFilteredFiles (Some ?L) (Some []) = filter default_view_spec ?L"
    using getFilteredFiles_falsy [of ?L] by blast+
  then show ?thesis
    using v by simp
qed

end
